theory Spec2Isabelle
  imports Complex_Main
begin

section \<open>JavaScript values\<close>

text \<open>
  The simulator is JavaScript, and several of its entry points inspect the dynamic type of
  their arguments (\<^verbatim>\<open>typeof\<close>, \<^verbatim>\<open>Array.isArray\<close>, \<^verbatim>\<open>Number.isNaN\<close>,
  truthiness). The arguments are therefore modelled as values of a small universe of
  JavaScript data: \<^verbatim>\<open>undefined\<close>, \<^verbatim>\<open>null\<close>, booleans, numbers, strings, arrays and
  plain objects.

  A number is a finite value, one of the two infinities, or \<^verbatim>\<open>NaN\<close>. A finite value is
  a real number; the doubles are among them, and every arithmetic operation rounds its exact
  result to the nearest double (see \<open>to_double\<close> below). \<^verbatim>\<open>-0\<close> is identified with
  \<^verbatim>\<open>0\<close> (the \<^verbatim>\<open>Map\<close> of a cache level does the same with its keys).

  An object is the list of its own enumerable properties in enumeration order, with
  distinct keys.
\<close>

datatype jsnum = Fin real | PosInf | NegInf | NaN

datatype jsval =
    JUndefined
  | JNull
  | JBool bool
  | JNumber jsnum
  | JString string
  | JArray "jsval list"
  | JObject "(string \<times> jsval) list"

fun typeof :: "jsval \<Rightarrow> string" where
  "typeof JUndefined = ''undefined''"
| "typeof JNull = ''object''"
| "typeof (JBool _) = ''boolean''"
| "typeof (JNumber _) = ''number''"
| "typeof (JString _) = ''string''"
| "typeof (JArray _) = ''object''"
| "typeof (JObject _) = ''object''"

text \<open>\<^verbatim>\<open>Boolean(v)\<close>, which is also the test of \<^verbatim>\<open>if (v)\<close>, \<^verbatim>\<open>!v\<close> and \<^verbatim>\<open>v && w\<close>.\<close>

fun Boolean :: "jsval \<Rightarrow> bool" where
  "Boolean JUndefined = False"
| "Boolean JNull = False"
| "Boolean (JBool b) = b"
| "Boolean (JNumber (Fin x)) = (x \<noteq> 0)"
| "Boolean (JNumber NaN) = False"
| "Boolean (JNumber _) = True"
| "Boolean (JString s) = (s \<noteq> [])"
| "Boolean (JArray _) = True"
| "Boolean (JObject _) = True"

fun isNaN :: "jsval \<Rightarrow> bool" where
  "isNaN (JNumber NaN) = True"
| "isNaN _ = False"

fun isArray :: "jsval \<Rightarrow> bool" where
  "isArray (JArray _) = True"
| "isArray _ = False"

text \<open>
  \<^verbatim>\<open>v.key\<close> for one of the property names the simulator reads (\<^verbatim>\<open>name\<close>,
  \<^verbatim>\<open>training\<close>, \<^verbatim>\<open>trigger\<close>, \<^verbatim>\<open>label\<close>, \<^verbatim>\<open>speculative\<close>, the toggle names and the
  timing phases). Only an object carries such a property; on a boolean, number, string or
  array the read gives \<^verbatim>\<open>undefined\<close>. On \<^verbatim>\<open>undefined\<close> and \<^verbatim>\<open>null\<close> a plain read
  throws a \<^verbatim>\<open>TypeError\<close>; the callers below either guard against these two values first or
  write the throw out.
\<close>

fun lookup :: "(string \<times> jsval) list \<Rightarrow> string \<Rightarrow> jsval" where
  "lookup [] k = JUndefined"
| "lookup ((k', v) # ps) k = (if k' = k then v else lookup ps k)"

fun get_prop :: "jsval \<Rightarrow> string \<Rightarrow> jsval" where
  "get_prop (JObject ps) k = lookup ps k"
| "get_prop _ k = JUndefined"

text \<open>
  \<^verbatim>\<open>obj.key = v\<close>: an existing property keeps its place, a new one goes to the end.
\<close>

fun set_prop :: "string \<Rightarrow> jsval \<Rightarrow> (string \<times> jsval) list \<Rightarrow> (string \<times> jsval) list" where
  "set_prop k v [] = [(k, v)]"
| "set_prop k v ((k', v') # ps) = (if k' = k then (k, v) # ps else (k', v') # set_prop k v ps)"

text \<open>\<^verbatim>\<open>a && b\<close> gives \<^verbatim>\<open>a\<close> when \<^verbatim>\<open>a\<close> is falsy and \<^verbatim>\<open>b\<close> otherwise.\<close>

definition js_and :: "jsval \<Rightarrow> jsval \<Rightarrow> jsval" where
  "js_and a b = (if Boolean a then b else a)"

section \<open>Errors\<close>

text \<open>One constructor for each \<^verbatim>\<open>throw\<close> of the sources, with the level, index, toggle
  or key that its message names. \<open>TypeError\<close> is the engine's own error for a property read
  on \<^verbatim>\<open>null\<close>, and \<open>CollaboratorError\<close> stands for whatever a renderer or logger
  throws.\<close>

datatype error =
    InvalidAddress string
  | PipelineExpectsArray
  | PipelineInstructionShape nat
  | ExpectedBoolean string
  | FenceExpectsAddresses
  | TimingNotObject
  | TimingEmpty
  | TimingNotNumeric string
  | PatternName
  | PatternTraining
  | PatternTrigger
  | DefendedNotBoolean
  | TypeError
  | CollaboratorError string

section \<open>cpuModel.js: the branch predictor\<close>

record BranchPredictor =
  history :: "bool list"
  threshold :: int
  counter :: int

definition BranchPredictor_new :: BranchPredictor where
  "BranchPredictor_new = \<lparr>history = [], threshold = 2, counter = 2\<rparr>"

text \<open>\<^verbatim>\<open>_update(outcome)\<close>: the saturating step, then the push and the shift of the oldest
  entry once more than 16 are kept.\<close>

definition BranchPredictor_update :: "BranchPredictor \<Rightarrow> bool \<Rightarrow> BranchPredictor" where
  "BranchPredictor_update p outcome =
     (let c = (if outcome then min 3 (counter p + 1) else max 0 (counter p - 1));
          h = history p @ [outcome];
          h' = (if length h > 16 then tl h else h)
      in p\<lparr>counter := c, history := h'\<rparr>)"

text \<open>\<^verbatim>\<open>predict(outcome)\<close> has no \<^verbatim>\<open>throw\<close>: a non-boolean outcome is only reported with
  \<^verbatim>\<open>console.warn\<close> and coerced. The result is the prediction and the updated
  predictor.\<close>

definition BranchPredictor_predict :: "BranchPredictor \<Rightarrow> jsval \<Rightarrow> bool \<times> BranchPredictor" where
  "BranchPredictor_predict p outcome =
     (let normalizedOutcome = Boolean outcome;
          prediction = (counter p \<ge> threshold p)
      in (prediction, BranchPredictor_update p normalizedOutcome))"



section \<open>cpuModel.js: the cache hierarchy\<close>

text \<open>
  The \<^verbatim>\<open>lines\<close> of a level are a JavaScript \<^verbatim>\<open>Map\<close> from address to the
  \<^verbatim>\<open>Date.now()\<close> reading of the insertion: an association list in insertion order.
  Only numbers other than \<^verbatim>\<open>NaN\<close> ever become keys, and for those the key
  comparison of \<^verbatim>\<open>Map\<close> is equality of \<^typ>\<open>jsnum\<close>.
\<close>

record CacheLevel =
  name :: string
  size_l :: nat
  latency_l :: nat
  lines :: "(jsnum \<times> nat) list"

record AccessResult =
  level :: string
  hit :: bool
  latency :: nat

definition CacheLevel_new :: "string \<Rightarrow> nat \<Rightarrow> nat \<Rightarrow> CacheLevel" where
  "CacheLevel_new n sz lat = \<lparr>name = n, size_l = sz, latency_l = lat, lines = []\<rparr>"

definition Map_has :: "('k \<times> 'v) list \<Rightarrow> 'k \<Rightarrow> bool" where
  "Map_has m k = (k \<in> set (map fst m))"

definition Map_delete :: "'k \<Rightarrow> ('k \<times> 'v) list \<Rightarrow> ('k \<times> 'v) list" where
  "Map_delete k m = filter (\<lambda>e. fst e \<noteq> k) m"

fun Map_set :: "'k \<Rightarrow> 'v \<Rightarrow> ('k \<times> 'v) list \<Rightarrow> ('k \<times> 'v) list" where
  "Map_set k v [] = [(k, v)]"
| "Map_set k v ((k', v') # m) = (if k' = k then (k, v) # m else (k', v') # Map_set k v m)"

text \<open>
  \<^verbatim>\<open>_insert(address)\<close>. The destructuring \<^verbatim>\<open>const [oldest] = this.lines.keys()\<close> takes
  the first key; on an empty map it gives \<^verbatim>\<open>undefined\<close> and the \<^verbatim>\<open>delete\<close> removes
  nothing. The first argument is the reading of \<^verbatim>\<open>Date.now()\<close>.
\<close>

definition CacheLevel_insert :: "nat \<Rightarrow> CacheLevel \<Rightarrow> jsnum \<Rightarrow> CacheLevel" where
  "CacheLevel_insert now l address =
     (let ls = (if length (lines l) \<ge> size_l l
                then (case lines l of [] \<Rightarrow> [] | (oldest, _) # _ \<Rightarrow> Map_delete oldest (lines l))
                else lines l)
      in l\<lparr>lines := Map_set address now ls\<rparr>)"

text \<open>\<^verbatim>\<open>CacheLevel.access(address)\<close>: the outcome (an error or the hit metadata) and the
  level afterwards.\<close>

fun CacheLevel_access :: "nat \<Rightarrow> CacheLevel \<Rightarrow> jsval \<Rightarrow> (error + AccessResult) \<times> CacheLevel" where
  "CacheLevel_access now l (JNumber NaN) = (Inl (InvalidAddress (name l)), l)"
| "CacheLevel_access now l (JNumber address) =
     (let h = Map_has (lines l) address;
          l' = (if \<not> h then CacheLevel_insert now l address else l)
      in (Inr \<lparr>level = name l, hit = h, latency = latency_l l\<rparr>, l'))"
| "CacheLevel_access now l _ = (Inl (InvalidAddress (name l)), l)"

definition CacheLevel_snapshot :: "CacheLevel \<Rightarrow> jsnum list" where
  "CacheLevel_snapshot l = map fst (lines l)"

record CacheModel =
  levels :: "CacheLevel list"
  missLatency :: nat

definition CacheModel_new :: CacheModel where
  "CacheModel_new =
     \<lparr>levels = [CacheLevel_new ''L1'' 8 8, CacheLevel_new ''L2'' 16 16], missLatency = 42\<rparr>"

text \<open>
  The loop \<^verbatim>\<open>for (const level of this.levels)\<close> of \<^verbatim>\<open>CacheModel.access\<close>: \<open>done\<close> are
  the levels already visited (as they are now), \<open>i\<close> is the index of the next level and
  \<open>clock i\<close> the reading of \<^verbatim>\<open>Date.now()\<close> while level \<open>i\<close> is visited. The result is
  the outcome and the list of levels afterwards; \<open>None\<close> as outcome means that the loop
  ran to its end without a hit.
\<close>

fun access_loop ::
  "(nat \<Rightarrow> nat) \<Rightarrow> nat \<Rightarrow> CacheLevel list \<Rightarrow> CacheLevel list \<Rightarrow> jsval
     \<Rightarrow> (error + AccessResult) option \<times> CacheLevel list" where
  "access_loop clock i done [] address = (None, done)"
| "access_loop clock i done (l # rest) address =
     (case CacheLevel_access (clock i) l address of
        (Inl e, l') \<Rightarrow> (Some (Inl e), done @ l' # rest)
      | (Inr result, l') \<Rightarrow>
          if hit result then (Some (Inr (result\<lparr>hit := True\<rparr>)), done @ l' # rest)
          else access_loop clock (Suc i) (done @ [l']) rest address)"

definition CacheModel_access ::
  "(nat \<Rightarrow> nat) \<Rightarrow> CacheModel \<Rightarrow> jsval \<Rightarrow> (error + AccessResult) \<times> CacheModel" where
  "CacheModel_access clock m address =
     (case access_loop clock 0 [] (levels m) address of
        (Some r, ls) \<Rightarrow> (r, m\<lparr>levels := ls\<rparr>)
      | (None, ls) \<Rightarrow>
          (Inr \<lparr>level = ''memory'', hit = False, latency = missLatency m\<rparr>, m\<lparr>levels := ls\<rparr>))"

text \<open>
  \<^verbatim>\<open>prime\<close> and \<open>probe\<close> are the same \<^verbatim>\<open>addresses.map((addr) => this.access(addr))\<close>:
  a throwing access ends the call and keeps what the earlier accesses did. \<open>clock j\<close> is
  the clock of the access to the \<open>j\<close>-th address.
\<close>

fun access_all ::
  "(nat \<Rightarrow> nat \<Rightarrow> nat) \<Rightarrow> nat \<Rightarrow> CacheModel \<Rightarrow> jsval list
     \<Rightarrow> (error + AccessResult list) \<times> CacheModel" where
  "access_all clock j m [] = (Inr [], m)"
| "access_all clock j m (a # as) =
     (case CacheModel_access (clock j) m a of
        (Inl e, m') \<Rightarrow> (Inl e, m')
      | (Inr r, m') \<Rightarrow>
          (case access_all clock (Suc j) m' as of
             (Inl e, m'') \<Rightarrow> (Inl e, m'')
           | (Inr rs, m'') \<Rightarrow> (Inr (r # rs), m'')))"

definition CacheModel_prime ::
  "(nat \<Rightarrow> nat \<Rightarrow> nat) \<Rightarrow> CacheModel \<Rightarrow> jsval list \<Rightarrow> (error + AccessResult list) \<times> CacheModel" where
  "CacheModel_prime clock m addresses = access_all clock 0 m addresses"

definition CacheModel_probe ::
  "(nat \<Rightarrow> nat \<Rightarrow> nat) \<Rightarrow> CacheModel \<Rightarrow> jsval list \<Rightarrow> (error + AccessResult list) \<times> CacheModel" where
  "CacheModel_probe clock m addresses = access_all clock 0 m addresses"

definition CacheModel_snapshot :: "CacheModel \<Rightarrow> (string \<times> jsnum list) list" where
  "CacheModel_snapshot m = map (\<lambda>l. (name l, CacheLevel_snapshot l)) (levels m)"

section \<open>cpuModel.js: the pipeline stage mapper\<close>

definition STAGES :: "string list" where
  "STAGES = [''fetch'', ''decode'', ''execute'', ''retire'']"

record Pipeline =
  stages :: "string list"

definition Pipeline_new :: Pipeline where
  "Pipeline_new = \<lparr>stages = STAGES\<rparr>"

record StageView =
  stage :: string
  instructions :: "jsval list"

text \<open>Decimal notation of an array index, the property key of an array element.\<close>

fun index_key :: "nat \<Rightarrow> string" where
  "index_key n =
     (if n < 10 then [''0123456789'' ! n]
      else index_key (n div 10) @ [''0123456789'' ! (n mod 10)])"

declare index_key.simps [simp del]

text \<open>The own enumerable properties that \<^verbatim>\<open>Object.entries(v)\<close> and the spread
  \<^verbatim>\<open>{...v}\<close> see.\<close>

fun own_entries :: "jsval \<Rightarrow> (string \<times> jsval) list" where
  "own_entries (JObject ps) = ps"
| "own_entries (JArray xs) = zip (map index_key [0..<length xs]) xs"
| "own_entries (JString s) = zip (map index_key [0..<length s]) (map (\<lambda>c. JString [c]) s)"
| "own_entries _ = []"

text \<open>\<^verbatim>\<open>Object.fromEntries\<close>: the pairs are assigned one after the other.\<close>

definition fromEntries :: "(string \<times> jsval) list \<Rightarrow> (string \<times> jsval) list" where
  "fromEntries es = foldl (\<lambda>obj (k, v). set_prop k v obj) [] es"

text \<open>The index of the first entry that fails the shape test of the \<^verbatim>\<open>forEach\<close> in
  \<^verbatim>\<open>simulate\<close>, counting from \<open>idx\<close>.\<close>

fun first_bad_instruction :: "nat \<Rightarrow> jsval list \<Rightarrow> nat option" where
  "first_bad_instruction idx [] = None"
| "first_bad_instruction idx (instruction # rest) =
     (if typeof (get_prop instruction ''label'') \<noteq> ''string''
         \<or> typeof (get_prop instruction ''speculative'') \<noteq> ''boolean''
      then Some idx
      else first_bad_instruction (Suc idx) rest)"

text \<open>\<^verbatim>\<open>simulate(instructions, mispredict = false)\<close>: an \<^verbatim>\<open>undefined\<close> second argument
  takes the default.\<close>

definition Pipeline_simulate :: "Pipeline \<Rightarrow> jsval \<Rightarrow> jsval \<Rightarrow> error + StageView list" where
  "Pipeline_simulate p instrs mispredict0 =
     (let mis = (if mispredict0 = JUndefined then JBool False else mispredict0)
      in case instrs of
           JArray xs \<Rightarrow>
             (case first_bad_instruction 0 xs of
                Some idx \<Rightarrow> Inl (PipelineInstructionShape idx)
              | None \<Rightarrow>
                  Inr (map (\<lambda>(index, stg).
                         \<lparr>stage = stg,
                          instructions =
                            map (\<lambda>instr. JObject (set_prop ''speculative''
                                                    (js_and mis (get_prop instr ''speculative''))
                                                    (own_entries instr)))
                                (map snd (filter (\<lambda>(idx, _). idx = index) (enumerate 0 xs)))\<rparr>)
                       (enumerate 0 (stages p))))
         | _ \<Rightarrow> Inl PipelineExpectsArray)"

section \<open>cpuModel.js: timing clamp and the speculative sequence\<close>

text \<open>\<^verbatim>\<open>Math.min\<close> and \<^verbatim>\<open>Math.max\<close> of two numbers: \<^verbatim>\<open>NaN\<close> if either is.\<close>

fun Math_min :: "jsnum \<Rightarrow> jsnum \<Rightarrow> jsnum" where
  "Math_min NaN _ = NaN"
| "Math_min _ NaN = NaN"
| "Math_min NegInf _ = NegInf"
| "Math_min _ NegInf = NegInf"
| "Math_min PosInf y = y"
| "Math_min x PosInf = x"
| "Math_min (Fin x) (Fin y) = Fin (min x y)"

fun Math_max :: "jsnum \<Rightarrow> jsnum \<Rightarrow> jsnum" where
  "Math_max NaN _ = NaN"
| "Math_max _ NaN = NaN"
| "Math_max PosInf _ = PosInf"
| "Math_max _ PosInf = PosInf"
| "Math_max NegInf y = y"
| "Math_max x NegInf = x"
| "Math_max (Fin x) (Fin y) = Fin (max x y)"

definition clampTiming :: "jsnum \<Rightarrow> jsnum" where
  "clampTiming v = Math_max (Fin 20) (Math_min v (Fin 180))"

definition buildSpeculativeSequence :: "jsval \<Rightarrow> jsval list" where
  "buildSpeculativeSequence branchTaken =
     [JObject [(''label'', JString ''branch''), (''speculative'', JBool False)],
      JObject [(''label'', JString (if Boolean branchTaken then ''target load'' else ''fallthrough'')),
               (''speculative'', JBool (\<not> Boolean branchTaken))],
      JObject [(''label'', JString ''dependent read''), (''speculative'', JBool (\<not> Boolean branchTaken))],
      JObject [(''label'', JString ''retire''), (''speculative'', JBool False)]]"

section \<open>Arithmetic on numbers\<close>

text \<open>The sign of a product or quotient with an infinite operand; zero counts as
  positive in a divisor (there is no \<^verbatim>\<open>-0\<close> here, and every divisor in the sources is a
  positive constant or the length of a non-empty list).\<close>

definition signed_inf :: "bool \<Rightarrow> jsnum" where
  "signed_inf positive = (if positive then PosInf else NegInf)"

text \<open>
  Rounding of a real number to a double, as IEEE 754 binary64 does after every operation:
  to the nearest multiple of the unit in the last place, a tie to the even multiple. The
  unit is \<open>2 ^ (e - 52)\<close> for a value with binary exponent \<open>e\<close>, and not below
  \<open>2 ^ -1074\<close> (gradual underflow); a result of magnitude \<open>2 ^ 1024\<close> or more is
  an infinity.
\<close>

definition round_half_even :: "real \<Rightarrow> int" where
  "round_half_even q =
     (let f = \<lfloor>q\<rfloor>; d = q - of_int f
      in if d < 1 / 2 then f else if d > 1 / 2 then f + 1 else if even f then f else f + 1)"

definition ulp_exponent :: "real \<Rightarrow> int" where
  "ulp_exponent x = max (- 1074) (\<lfloor>log 2 \<bar>x\<bar>\<rfloor> - 52)"

definition to_double :: "real \<Rightarrow> jsnum" where
  "to_double x =
     (if x = 0 then Fin 0
      else let e = ulp_exponent x;
               y = of_int (round_half_even (x / 2 powi e)) * 2 powi e
           in if \<bar>y\<bar> \<ge> 2 ^ 1024 then signed_inf (x > 0) else Fin y)"

fun num_neg :: "jsnum \<Rightarrow> jsnum" where
  "num_neg (Fin x) = Fin (- x)"
| "num_neg PosInf = NegInf"
| "num_neg NegInf = PosInf"
| "num_neg NaN = NaN"

fun num_add :: "jsnum \<Rightarrow> jsnum \<Rightarrow> jsnum" where
  "num_add NaN _ = NaN"
| "num_add _ NaN = NaN"
| "num_add PosInf NegInf = NaN"
| "num_add NegInf PosInf = NaN"
| "num_add PosInf _ = PosInf"
| "num_add NegInf _ = NegInf"
| "num_add _ PosInf = PosInf"
| "num_add _ NegInf = NegInf"
| "num_add (Fin x) (Fin y) = to_double (x + y)"

definition num_sub :: "jsnum \<Rightarrow> jsnum \<Rightarrow> jsnum" where
  "num_sub a b = num_add a (num_neg b)"

fun num_mul :: "jsnum \<Rightarrow> jsnum \<Rightarrow> jsnum" where
  "num_mul NaN _ = NaN"
| "num_mul _ NaN = NaN"
| "num_mul (Fin x) (Fin y) = to_double (x * y)"
| "num_mul (Fin x) PosInf = (if x = 0 then NaN else signed_inf (x > 0))"
| "num_mul (Fin x) NegInf = (if x = 0 then NaN else signed_inf (x < 0))"
| "num_mul PosInf (Fin y) = (if y = 0 then NaN else signed_inf (y > 0))"
| "num_mul NegInf (Fin y) = (if y = 0 then NaN else signed_inf (y < 0))"
| "num_mul PosInf PosInf = PosInf"
| "num_mul NegInf NegInf = PosInf"
| "num_mul PosInf NegInf = NegInf"
| "num_mul NegInf PosInf = NegInf"

fun num_div :: "jsnum \<Rightarrow> jsnum \<Rightarrow> jsnum" where
  "num_div NaN _ = NaN"
| "num_div _ NaN = NaN"
| "num_div (Fin x) (Fin y) =
     (if y = 0 then (if x = 0 then NaN else signed_inf (x > 0)) else to_double (x / y))"
| "num_div (Fin x) _ = Fin 0"
| "num_div PosInf (Fin y) = signed_inf (y \<ge> 0)"
| "num_div NegInf (Fin y) = signed_inf (y < 0)"
| "num_div _ _ = NaN"

fun Math_floor :: "jsnum \<Rightarrow> jsnum" where
  "Math_floor (Fin x) = Fin (of_int \<lfloor>x\<rfloor>)"
| "Math_floor v = v"

text \<open>\<^verbatim>\<open>Math.round\<close> rounds to the nearest integer, a tie towards \<open>+\<infinity>\<close>.\<close>

fun Math_round :: "jsnum \<Rightarrow> jsnum" where
  "Math_round (Fin x) = Fin (of_int \<lfloor>x + 1 / 2\<rfloor>)"
| "Math_round v = v"

fun Math_sqrt :: "jsnum \<Rightarrow> jsnum" where
  "Math_sqrt (Fin x) = (if x < 0 then NaN else to_double (sqrt x))"
| "Math_sqrt PosInf = PosInf"
| "Math_sqrt _ = NaN"

fun num_gt :: "jsnum \<Rightarrow> jsnum \<Rightarrow> bool" where
  "num_gt NaN _ = False"
| "num_gt _ NaN = False"
| "num_gt (Fin x) (Fin y) = (x > y)"
| "num_gt PosInf PosInf = False"
| "num_gt PosInf _ = True"
| "num_gt (Fin x) NegInf = True"
| "num_gt _ _ = False"

definition getConfidence :: "BranchPredictor \<Rightarrow> jsnum" where
  "getConfidence p = num_div (Fin (real_of_int (counter p))) (Fin 3)"

text \<open>
  The operand of an arithmetic operator. Where the sources compute with a value it is a
  number (the timing values have passed \<^verbatim>\<open>_validateTimings\<close>) or the \<^verbatim>\<open>undefined\<close> of
  a missing property, which the operator turns into \<^verbatim>\<open>NaN\<close>; \<^verbatim>\<open>null\<close> and the
  booleans are converted as the language does. Strings, arrays and objects never reach an
  operator.
\<close>

fun ToNumber :: "jsval \<Rightarrow> jsnum" where
  "ToNumber (JNumber x) = x"
| "ToNumber JUndefined = NaN"
| "ToNumber JNull = Fin 0"
| "ToNumber (JBool b) = Fin (if b then 1 else 0)"
| "ToNumber _ = NaN"

section \<open>defence.js: the defence toolkit\<close>

text \<open>The toolkit owns one object, \<^verbatim>\<open>this.state\<close>, with the five toggles.\<close>

record DefenceToolkit =
  state :: "(string \<times> jsval) list"

definition DefenceToolkit_new :: DefenceToolkit where
  "DefenceToolkit_new =
     \<lparr>state = [(''constantTime'', JBool True), (''jitter'', JBool True), (''fence'', JBool True),
               (''clampTimers'', JBool True), (''detection'', JBool True)]\<rparr>"

definition assertBoolean :: "string \<Rightarrow> jsval \<Rightarrow> error option" where
  "assertBoolean nm v = (if typeof v \<noteq> ''boolean'' then Some (ExpectedBoolean nm) else None)"

text \<open>The five setters have one shape: the assertion, then the assignment to the
  property. A setter that throws leaves the toolkit as it was.\<close>

definition setToggle :: "string \<Rightarrow> DefenceToolkit \<Rightarrow> jsval \<Rightarrow> error option \<times> DefenceToolkit" where
  "setToggle nm tk v =
     (case assertBoolean nm v of
        Some e \<Rightarrow> (Some e, tk)
      | None \<Rightarrow> (None, tk\<lparr>state := set_prop nm v (state tk)\<rparr>))"

definition setConstantTime :: "DefenceToolkit \<Rightarrow> jsval \<Rightarrow> error option \<times> DefenceToolkit" where
  "setConstantTime = setToggle ''constantTime''"

definition setJitter :: "DefenceToolkit \<Rightarrow> jsval \<Rightarrow> error option \<times> DefenceToolkit" where
  "setJitter = setToggle ''jitter''"

definition setFence :: "DefenceToolkit \<Rightarrow> jsval \<Rightarrow> error option \<times> DefenceToolkit" where
  "setFence = setToggle ''fence''"

definition setClampTimers :: "DefenceToolkit \<Rightarrow> jsval \<Rightarrow> error option \<times> DefenceToolkit" where
  "setClampTimers = setToggle ''clampTimers''"

definition setDetection :: "DefenceToolkit \<Rightarrow> jsval \<Rightarrow> error option \<times> DefenceToolkit" where
  "setDetection = setToggle ''detection''"

text \<open>\<^verbatim>\<open>getState(defended)\<close> reads \<^verbatim>\<open>this.state\<close> and writes nothing; the object it
  returns is a fresh one.\<close>

definition getState :: "DefenceToolkit \<Rightarrow> jsval \<Rightarrow> (string \<times> jsval) list" where
  "getState tk defended =
     (let enabled = state tk
      in if Boolean defended then enabled
         else fromEntries (map (\<lambda>key. (key, JBool False)) (map fst enabled)))"

definition assertAddresses :: "jsval \<Rightarrow> error option" where
  "assertAddresses addresses =
     (case addresses of
        JArray xs \<Rightarrow>
          (if list_ex (\<lambda>addr. typeof addr \<noteq> ''number'' \<or> isNaN addr) xs
           then Some FenceExpectsAddresses else None)
      | _ \<Rightarrow> Some FenceExpectsAddresses)"

text \<open>
  \<^verbatim>\<open>applyFence(addresses, state = this.state)\<close>. Both branches return the same sequence
  of values (the second a copy), so the result is the list of addresses. Reading
  \<^verbatim>\<open>state.fence\<close> throws on \<^verbatim>\<open>null\<close>.
\<close>

definition applyFence :: "DefenceToolkit \<Rightarrow> jsval \<Rightarrow> jsval \<Rightarrow> error + jsval list" where
  "applyFence tk addresses state0 =
     (let st = (if state0 = JUndefined then JObject (state tk) else state0)
      in case assertAddresses addresses of
           Some e \<Rightarrow> Inl e
         | None \<Rightarrow>
             if st = JNull then Inl TypeError
             else (case addresses of JArray xs \<Rightarrow> Inr xs | _ \<Rightarrow> Inr []))"

definition validateTimings :: "jsval \<Rightarrow> error option" where
  "validateTimings timings =
     (if \<not> Boolean timings \<or> typeof timings \<noteq> ''object'' then Some TimingNotObject
      else let entries = own_entries timings
           in if length entries = 0 then Some TimingEmpty
              else (case find (\<lambda>(key, v). typeof v \<noteq> ''number'' \<or> isNaN v) entries of
                      Some (key, v) \<Rightarrow> Some (TimingNotNumeric key)
                    | None \<Rightarrow> None))"

text \<open>\<^verbatim>\<open>Math.max(...values)\<close>: \<open>-\<infinity>\<close> for no argument.\<close>

definition Math_max_list :: "jsnum list \<Rightarrow> jsnum" where
  "Math_max_list vs = foldl Math_max NegInf vs"

definition applyConstantTime :: "jsval \<Rightarrow> error + (string \<times> jsval) list" where
  "applyConstantTime timings =
     (case validateTimings timings of
        Some e \<Rightarrow> Inl e
      | None \<Rightarrow>
          (let mx = Math_max_list (map (\<lambda>(k, v). ToNumber v) (own_entries timings))
           in Inr (fromEntries (map (\<lambda>(k, v). (k, JNumber (clampTiming mx))) (own_entries timings)))))"

text \<open>\<^verbatim>\<open>_jitter()\<close> on the value \<open>r\<close> that \<^verbatim>\<open>Math.random()\<close> returns.\<close>

definition jitter :: "real \<Rightarrow> jsnum" where
  "jitter r = num_sub (Math_floor (num_mul (Fin r) (Fin 10))) (Fin 5)"

text \<open>
  \<^verbatim>\<open>applyDefences(timings, mispredict, state = this.state)\<close>. \<open>rnd i\<close> is what
  \<^verbatim>\<open>Math.random()\<close> returns for the \<open>i\<close>-th entry of the record; it is drawn only when
  the jitter is on.
\<close>

definition applyDefences ::
  "DefenceToolkit \<Rightarrow> (nat \<Rightarrow> real) \<Rightarrow> jsval \<Rightarrow> jsval \<Rightarrow> jsval \<Rightarrow> error + (string \<times> jsval) list" where
  "applyDefences tk rnd timings mispredict state0 =
     (let st = (if state0 = JUndefined then JObject (state tk) else state0)
      in case validateTimings timings of
           Some e \<Rightarrow> Inl e
         | None \<Rightarrow>
             if st = JNull then Inl TypeError
             else
               (let jittered =
                      (if Boolean (get_prop st ''jitter'')
                       then fromEntries
                              (map (\<lambda>(i, (key, v)).
                                      (key, JNumber (clampTiming (num_add (ToNumber v) (jitter (rnd i))))))
                                   (enumerate 0 (own_entries timings)))
                       else own_entries timings);
                    jittered' =
                      (if Boolean (js_and (get_prop st ''fence'') mispredict)
                       then set_prop ''speculate''
                              (JNumber (clampTiming (num_div (ToNumber (lookup jittered ''speculate'')) (Fin 2))))
                              jittered
                       else jittered)
                in Inr jittered'))"

text \<open>The method \<^verbatim>\<open>clampTiming(timings)\<close> of the toolkit, not the function
  \<^const>\<open>clampTiming\<close> of \<^verbatim>\<open>cpuModel.js\<close>.\<close>

definition DefenceToolkit_clampTiming :: "jsval \<Rightarrow> error + (string \<times> jsval) list" where
  "DefenceToolkit_clampTiming timings =
     (case validateTimings timings of
        Some e \<Rightarrow> Inl e
      | None \<Rightarrow>
          Inr (fromEntries
                 (map (\<lambda>(k, v). (k, JNumber (num_mul (Math_round (num_div (ToNumber v) (Fin 5))) (Fin 5))))
                      (own_entries timings))))"

record Detection =
  avg :: jsnum
  std :: jsnum
  suspicious :: bool

definition detectAnomaly :: "jsval \<Rightarrow> error + Detection" where
  "detectAnomaly timings =
     (case validateTimings timings of
        Some e \<Rightarrow> Inl e
      | None \<Rightarrow>
          (let vals = map (\<lambda>(k, v). ToNumber v) (own_entries timings);
               n = Fin (real (length vals));
               a = num_div (foldl num_add (Fin 0) vals) n;
               variance =
                 num_div (foldl (\<lambda>sm v. num_add sm (num_mul (num_sub v a) (num_sub v a))) (Fin 0) vals) n;
               sd = Math_sqrt variance
           in Inr \<lparr>avg = a, std = sd, suspicious = num_gt sd (Fin 12)\<rparr>))"

section \<open>attack.js: the scenario runner\<close>

definition branchTrain :: jsval where
  "branchTrain =
     JObject [(''name'', JString ''Branch training & mistrain''),
              (''description'',
                 JString ''Trains the predictor to take a branch, then flips outcome to model speculative load.''),
              (''training'', JArray [JBool True, JBool True, JBool True, JBool True]),
              (''trigger'', JBool False)]"

definition MOCK_MEMORY :: "jsval list" where
  "MOCK_MEMORY = map (\<lambda>i. JNumber (Fin (real (i * 4)))) [0..<32]"

text \<open>\<^verbatim>\<open>artificialDelay(base, jitter = 0)\<close>; \<open>r\<close> is the value of \<^verbatim>\<open>Math.random()\<close>, which
  is called only for a non-zero jitter. Both call sites pass the jitter.\<close>

definition artificialDelay :: "real \<Rightarrow> jsnum \<Rightarrow> jsnum \<Rightarrow> jsnum" where
  "artificialDelay r base jit =
     (let variance =
            (if Boolean (JNumber jit)
             then num_sub (Math_floor (num_mul (Fin r) jit)) (num_div jit (Fin 2))
             else Fin 0)
      in clampTiming (num_add base variance))"

text \<open>
  The collaborators of the runner. A renderer is known to the runner only through its
  three methods, which are called for their effect on the page: each is a function from
  its arguments to the error it throws, if any. The logger may lack the \<^verbatim>\<open>info\<close> method
  (the call is \<^verbatim>\<open>this.logger.info?.(...)\<close>).
\<close>

record Visualiser =
  renderPipeline :: "StageView list \<Rightarrow> error option"
  renderCache :: "(string \<times> jsnum list) list \<Rightarrow> error option"
  renderTimings :: "(string \<times> jsval) list \<Rightarrow> Detection option \<Rightarrow> error option"

record Logger =
  info :: "(string \<Rightarrow> error option) option"

text \<open>
  What a run reads from outside: the successive values of \<^verbatim>\<open>Math.random()\<close>, and the
  readings of \<^verbatim>\<open>Date.now()\<close> during the priming, the speculative access and the probe.
\<close>

record Env =
  Math_random :: "nat \<Rightarrow> real"
  Date_now_prime :: "nat \<Rightarrow> nat \<Rightarrow> nat"
  Date_now_access :: "nat \<Rightarrow> nat"
  Date_now_probe :: "nat \<Rightarrow> nat \<Rightarrow> nat"

record AttackSimulator =
  visualiser :: Visualiser
  defence :: DefenceToolkit
  logger :: Logger
  cache :: CacheModel
  predictor :: BranchPredictor
  pipeline :: Pipeline

definition AttackSimulator_new :: "Visualiser \<Rightarrow> DefenceToolkit \<Rightarrow> Logger \<Rightarrow> AttackSimulator" where
  "AttackSimulator_new v d lg =
     \<lparr>visualiser = v, defence = d, logger = lg, cache = CacheModel_new,
      predictor = BranchPredictor_new, pipeline = Pipeline_new\<rparr>"

record ScenarioResult =
  summary :: string
  primeResults :: "AccessResult list"
  trainingResults :: "bool list"
  mispredict :: bool
  speculativeAccess :: AccessResult
  probeResults :: "AccessResult list"
  measurements :: "(string \<times> jsval) list"
  detection :: "Detection option"

text \<open>The elements of an array (of a value that has passed \<^verbatim>\<open>Array.isArray\<close>).\<close>

fun elements :: "jsval \<Rightarrow> jsval list" where
  "elements (JArray xs) = xs"
| "elements _ = []"

definition validatePattern :: "jsval \<Rightarrow> error option" where
  "validatePattern pattern =
     (if \<not> Boolean pattern \<or> typeof (get_prop pattern ''name'') \<noteq> ''string''
      then Some PatternName
      else if \<not> isArray (get_prop pattern ''training'')
              \<or> list_ex (\<lambda>v. typeof v \<noteq> ''boolean'') (elements (get_prop pattern ''training''))
      then Some PatternTraining
      else if typeof (get_prop pattern ''trigger'') \<noteq> ''boolean''
      then Some PatternTrigger
      else None)"

definition selectAddresses :: "AttackSimulator \<Rightarrow> nat \<Rightarrow> jsval \<Rightarrow> error + jsval list" where
  "selectAddresses sim count defenceState =
     (let slice = take count MOCK_MEMORY
      in applyFence (defence sim) (JArray slice) defenceState)"

text \<open>\<^verbatim>\<open>pattern.training.map((outcome) => this.predictor.predict(outcome))\<close>.\<close>

fun predict_all :: "BranchPredictor \<Rightarrow> jsval list \<Rightarrow> bool list \<times> BranchPredictor" where
  "predict_all p [] = ([], p)"
| "predict_all p (outcome # rest) =
     (case BranchPredictor_predict p outcome of
        (prediction, p') \<Rightarrow>
          (case predict_all p' rest of (predictions, p'') \<Rightarrow> (prediction # predictions, p'')))"

definition log_line :: "string \<Rightarrow> bool \<Rightarrow> string" where
  "log_line nm mis =
     ''Scenario '' @ [CHR 0x27] @ nm @ [CHR 0x27] @ '' executed with mispredict=''
       @ (if mis then ''true'' else ''false'')"

text \<open>\<^verbatim>\<open>this.logger.info?.(message)\<close>: no call when the logger has no such method.\<close>

definition call_info :: "Logger \<Rightarrow> string \<Rightarrow> error option" where
  "call_info lg message = (case info lg of None \<Rightarrow> None | Some f \<Rightarrow> f message)"

text \<open>
  The second half of \<^verbatim>\<open>run\<close>, from \<^verbatim>\<open>baseTiming\<close> to the \<^verbatim>\<open>return\<close>: the timings,
  the defences, the calls of the renderer and of the logger. It changes neither the cache
  nor the predictor. \<open>c\<close> is the cache as the probe left it.
\<close>

definition measure_and_render ::
  "Env \<Rightarrow> AttackSimulator \<Rightarrow> CacheModel \<Rightarrow> jsval \<Rightarrow> (string \<times> jsval) list
     \<Rightarrow> AccessResult list \<Rightarrow> bool list \<Rightarrow> bool \<Rightarrow> StageView list \<Rightarrow> AccessResult
     \<Rightarrow> AccessResult list \<Rightarrow> error + ScenarioResult" where
  "measure_and_render env sim c pattern defenceState primeRes trainingRes mis pipelineView specAccess probeRes =
     (let jit = (if Boolean (lookup defenceState ''jitter'') then Fin 8 else Fin 0);
          baseTiming =
            JObject
              [(''prime'', JNumber (artificialDelay (Math_random env 0) (Fin 60) jit)),
               (''speculate'',
                  JNumber (artificialDelay (Math_random env 1)
                             (num_mul (Fin (real (latency specAccess))) (Fin 2)) jit)),
               (''probe'',
                  JNumber (artificialDelay (Math_random env 2)
                             (num_div (foldl (\<lambda>sm p. num_add sm (Fin (real (latency p)))) (Fin 0)
                                         probeRes)
                                      (Fin (real (length probeRes))))
                             jit))]
      in case (if Boolean (lookup defenceState ''constantTime'')
               then applyConstantTime baseTiming
               else applyDefences (defence sim) (\<lambda>i. Math_random env (3 + i)) baseTiming
                      (JBool mis) (JObject defenceState)) of
           Inl e \<Rightarrow> Inl e
         | Inr timings \<Rightarrow>
             (case (if Boolean (lookup defenceState ''clampTimers'')
                    then DefenceToolkit_clampTiming (JObject timings)
                    else Inr timings) of
                Inl e \<Rightarrow> Inl e
              | Inr meas \<Rightarrow>
                  (case (if Boolean (lookup defenceState ''detection'')
                         then map_sum id Some (detectAnomaly (JObject meas))
                         else Inr None) of
                     Inl e \<Rightarrow> Inl e
                   | Inr det \<Rightarrow>
                       (case renderPipeline (visualiser sim) pipelineView of
                          Some e \<Rightarrow> Inl e
                        | None \<Rightarrow>
                            (case renderCache (visualiser sim) (CacheModel_snapshot c) of
                               Some e \<Rightarrow> Inl e
                             | None \<Rightarrow>
                                 (case renderTimings (visualiser sim) meas det of
                                    Some e \<Rightarrow> Inl e
                                  | None \<Rightarrow>
                                      (case call_info (logger sim)
                                              (log_line
                                                 (case get_prop pattern ''name'' of
                                                    JString s \<Rightarrow> s | _ \<Rightarrow> [])
                                                 mis) of
                                         Some e \<Rightarrow> Inl e
                                       | None \<Rightarrow>
                                           Inr \<lparr>summary = (if mis then ''Speculative path observed''
                                                            else ''No speculation observed''),
                                                primeResults = primeRes,
                                                trainingResults = trainingRes,
                                                mispredict = mis,
                                                speculativeAccess = specAccess,
                                                probeResults = probeRes,
                                                measurements = meas,
                                                detection = det\<rparr>)))))))"

text \<open>
  The first half of \<^verbatim>\<open>run\<close> after the validation: address selection, priming, training,
  the trigger, the pipeline view, the speculative access and the probe. An error leaves
  the simulator with what the earlier steps did to the cache and the predictor.
\<close>

definition run_scenario ::
  "Env \<Rightarrow> AttackSimulator \<Rightarrow> jsval \<Rightarrow> (string \<times> jsval) list
     \<Rightarrow> (error + ScenarioResult) \<times> AttackSimulator" where
  "run_scenario env sim pattern defenceState =
     (let training = elements (get_prop pattern ''training'');
          trigger = get_prop pattern ''trigger''
      in case selectAddresses sim (length training + 2) (JObject defenceState) of
           Inl e \<Rightarrow> (Inl e, sim)
         | Inr addresses \<Rightarrow>
             (case CacheModel_prime (Date_now_prime env) (cache sim) addresses of
                (Inl e, c1) \<Rightarrow> (Inl e, sim\<lparr>cache := c1\<rparr>)
              | (Inr primeRes, c1) \<Rightarrow>
                  (case predict_all (predictor sim) training of
                     (trainingRes, p1) \<Rightarrow>
                       (case BranchPredictor_predict p1 trigger of
                          (prediction, p2) \<Rightarrow>
                            (let mis = (JBool prediction \<noteq> trigger);
                                 sim1 = sim\<lparr>cache := c1, predictor := p2\<rparr>;
                                 speculativeSeq = buildSpeculativeSequence trigger
                             in case Pipeline_simulate (pipeline sim) (JArray speculativeSeq)
                                       (js_and (JBool mis)
                                               (JBool (\<not> Boolean (lookup defenceState ''fence'')))) of
                                  Inl e \<Rightarrow> (Inl e, sim1)
                                | Inr pipelineView \<Rightarrow>
                                    (case CacheModel_access (Date_now_access env) c1
                                            (case addresses of [] \<Rightarrow> JUndefined | a # _ \<Rightarrow> a) of
                                       (Inl e, c2) \<Rightarrow> (Inl e, sim1\<lparr>cache := c2\<rparr>)
                                     | (Inr specAccess, c2) \<Rightarrow>
                                         (case CacheModel_probe (Date_now_probe env) c2 (take 4 addresses) of
                                            (Inl e, c3) \<Rightarrow> (Inl e, sim1\<lparr>cache := c3\<rparr>)
                                          | (Inr probeRes, c3) \<Rightarrow>
                                              (measure_and_render env sim c3 pattern defenceState
                                                 primeRes trainingRes mis pipelineView specAccess probeRes,
                                               sim1\<lparr>cache := c3\<rparr>))))))))"

text \<open>
  \<^verbatim>\<open>async run(pattern, defended = false)\<close>: \<open>Inl\<close> is the rejected promise, \<open>Inr\<close> the
  resolved one. An \<^verbatim>\<open>undefined\<close> second argument takes the default.
\<close>

definition run :: "Env \<Rightarrow> AttackSimulator \<Rightarrow> jsval \<Rightarrow> jsval \<Rightarrow> (error + ScenarioResult) \<times> AttackSimulator" where
  "run env sim pattern defended0 =
     (let defended = (if defended0 = JUndefined then JBool False else defended0)
      in case validatePattern pattern of
           Some e \<Rightarrow> (Inl e, sim)
         | None \<Rightarrow>
             if typeof defended \<noteq> ''boolean'' then (Inl DefendedNotBoolean, sim)
             else run_scenario env sim pattern (getState (defence sim) defended))"

section \<open>Inputs used in the statements below\<close>

text \<open>A call of one of the five setters, and the toolkit after a sequence of such calls
  on a new toolkit; a call that throws is caught by the caller and the next one follows.\<close>

datatype toggle_call =
    SetConstantTime jsval
  | SetJitter jsval
  | SetFence jsval
  | SetClampTimers jsval
  | SetDetection jsval

fun apply_call :: "DefenceToolkit \<Rightarrow> toggle_call \<Rightarrow> DefenceToolkit" where
  "apply_call tk (SetConstantTime v) = snd (setConstantTime tk v)"
| "apply_call tk (SetJitter v) = snd (setJitter tk v)"
| "apply_call tk (SetFence v) = snd (setFence tk v)"
| "apply_call tk (SetClampTimers v) = snd (setClampTimers tk v)"
| "apply_call tk (SetDetection v) = snd (setDetection tk v)"

definition after_calls :: "toggle_call list \<Rightarrow> DefenceToolkit" where
  "after_calls calls = foldl apply_call DefenceToolkit_new calls"

text \<open>A finite number, and a timing record all of whose values are finite numbers.\<close>

fun is_finite :: "jsval \<Rightarrow> bool" where
  "is_finite (JNumber (Fin _)) = True"
| "is_finite _ = False"

definition finite_record :: "(string \<times> jsval) list \<Rightarrow> bool" where
  "finite_record ps = (ps \<noteq> [] \<and> list_all (\<lambda>(k, v). is_finite v) ps)"

text \<open>A finite number of magnitude at most \<open>b\<close>.\<close>

fun magnitude_at_most :: "real \<Rightarrow> jsval \<Rightarrow> bool" where
  "magnitude_at_most b (JNumber (Fin x)) = (\<bar>x\<bar> \<le> b)"
| "magnitude_at_most b _ = False"

text \<open>The shape that \<^verbatim>\<open>Pipeline.simulate\<close> asks of an instruction.\<close>

definition instruction_ok :: "jsval \<Rightarrow> bool" where
  "instruction_ok x =
     (typeof (get_prop x ''label'') = ''string'' \<and> typeof (get_prop x ''speculative'') = ''boolean'')"

text \<open>The renderer stub of \<^verbatim>\<open>tests/simulator.test.js\<close>, the default logger
  (\<^verbatim>\<open>console\<close>), and an environment with the \<^verbatim>\<open>Math.random = () => 0.4\<close> of that test
  and a clock that stands still.\<close>

definition visualiserStub :: Visualiser where
  "visualiserStub =
     \<lparr>renderPipeline = (\<lambda>_. None), renderCache = (\<lambda>_. None), renderTimings = (\<lambda>_ _. None)\<rparr>"

definition console :: Logger where
  "console = \<lparr>info = Some (\<lambda>_. None)\<rparr>"

definition test_env :: Env where
  "test_env =
     \<lparr>Math_random = (\<lambda>_. 4 / 10), Date_now_prime = (\<lambda>_ _. 0), Date_now_access = (\<lambda>_. 0),
      Date_now_probe = (\<lambda>_ _. 0)\<rparr>"

definition test_simulator :: AttackSimulator where
  "test_simulator = AttackSimulator_new visualiserStub DefenceToolkit_new console"

text \<open>A pattern whose name is the empty string, and the malformed pattern of
  \<^verbatim>\<open>tests/simulator.test.js\<close>.\<close>

definition unnamed_pattern :: jsval where
  "unnamed_pattern =
     JObject [(''name'', JString []), (''training'', JArray []), (''trigger'', JBool True)]"

definition oops_pattern :: jsval where
  "oops_pattern =
     JObject [(''name'', JString ''oops''), (''training'', JString ''bad''), (''trigger'', JBool True)]"

text \<open>The keys of \<^verbatim>\<open>this.state\<close>, and the cache after priming a new hierarchy with the
  first \<open>n\<close> mock addresses, for \<open>n\<close> up to 8, under the clock \<open>clk\<close>.\<close>

definition five_keys :: "string list" where
  "five_keys = [''constantTime'', ''jitter'', ''fence'', ''clampTimers'', ''detection'']"

definition primed :: "(nat \<Rightarrow> nat \<Rightarrow> nat) \<Rightarrow> nat \<Rightarrow> CacheModel" where
  "primed clk n =
     \<lparr>levels =
        [\<lparr>name = ''L1'', size_l = 8, latency_l = 8,
          lines = map (\<lambda>j. (Fin (real (j * 4)), clk j 0)) [0..<n]\<rparr>,
         \<lparr>name = ''L2'', size_l = 16, latency_l = 16,
          lines = map (\<lambda>j. (Fin (real (j * 4)), clk j 1)) [0..<n]\<rparr>],
       missLatency = 42\<rparr>"

text \<open>Nine addresses, one more than the first level holds, and the cache after priming
  a new hierarchy with them.\<close>

definition nine_addresses :: "jsval list" where
  "nine_addresses = take 9 MOCK_MEMORY"

definition primed_nine :: CacheModel where
  "primed_nine = snd (CacheModel_prime (\<lambda>_ _. 0) CacheModel_new nine_addresses)"

section \<open>Properties of the branch predictor\<close>

text \<open>
  Claim C7. For every argument, boolean or not, and every predictor (with the threshold 2
  that the constructor sets and nothing changes), \<^verbatim>\<open>predict\<close> returns whether the
  counter before the call is at least 2; afterwards the counter is one more, capped at 3,
  if the normalized outcome is true and one less, floored at 0, otherwise, and the
  normalized outcome is the last entry of the history, whose oldest entry has been dropped
  if 16 were already kept. The call cannot throw: the model of \<^verbatim>\<open>predict\<close> has no error
  result because the source has no \<^verbatim>\<open>throw\<close> on this path.
\<close>

theorem predict_pre_update_counter:
  assumes "threshold p = 2"
  shows "fst (BranchPredictor_predict p v) = (counter p \<ge> 2)
       \<and> counter (snd (BranchPredictor_predict p v))
           = (if Boolean v then min 3 (counter p + 1) else max 0 (counter p - 1))
       \<and> history (snd (BranchPredictor_predict p v))
           = (if length (history p) \<ge> 16 then tl (history p) else history p) @ [Boolean v]
       \<and> threshold (snd (BranchPredictor_predict p v)) = 2"
proof -
  have "16 \<le> length (history p) \<Longrightarrow> history p \<noteq> []" by auto
  then show ?thesis using assms
    by (simp add: BranchPredictor_predict_def BranchPredictor_update_def Let_def)
qed

theorem predict_pre_update_counter_witness:
  "threshold BranchPredictor_new = 2
   \<and> fst (BranchPredictor_predict BranchPredictor_new (JString ''yes'')) = True
   \<and> counter (snd (BranchPredictor_predict BranchPredictor_new (JString ''yes''))) = 3
   \<and> history (snd (BranchPredictor_predict BranchPredictor_new (JString ''yes''))) = [True]"
proof -
  have h: "threshold BranchPredictor_new = 2" by (simp add: BranchPredictor_new_def)
  show ?thesis
    using h predict_pre_update_counter [OF h, of "JString ''yes''"]
    by (simp add: BranchPredictor_new_def)
qed

section \<open>Properties of the cache hierarchy\<close>

lemma Map_set_fresh: "\<not> Map_has m k \<Longrightarrow> Map_set k v m = m @ [(k, v)]"
  by (induction m) (auto simp: Map_has_def)

lemma Map_delete_oldest: "distinct (map fst ((k, v) # m)) \<Longrightarrow> Map_delete k ((k, v) # m) = m"
  by (auto simp: Map_delete_def filter_id_conv)

lemma Map_has_tl: "\<not> Map_has m k \<Longrightarrow> \<not> Map_has (tl m) k"
  by (cases m) (auto simp: Map_has_def)

text \<open>What \<^verbatim>\<open>_insert\<close> does to the lines for an address that is not resident: the oldest
  line goes if the level is full, and the new line is appended.\<close>

lemma CacheLevel_insert_lines:
  assumes "distinct (map fst (lines l))" and "\<not> Map_has (lines l) a"
  shows "CacheLevel_insert now l a =
           l\<lparr>lines := (if size_l l \<le> length (lines l) then tl (lines l) else lines l) @ [(a, now)]\<rparr>"
proof (cases "lines l")
  case Nil
  then show ?thesis by (simp add: CacheLevel_insert_def)
next
  case (Cons e es)
  obtain k t where e: "e = (k, t)" by (cases e)
  have d: "Map_delete k ((k, t) # es) = es"
    using assms(1) Cons e Map_delete_oldest by metis
  have "\<not> Map_has es a" using assms(2) Cons Map_has_tl by fastforce
  then show ?thesis using Cons e d assms(2)
    by (simp add: CacheLevel_insert_def Map_set_fresh)
qed


lemma level_access_miss:
  "a \<noteq> NaN \<Longrightarrow> \<not> Map_has (lines l) a \<Longrightarrow>
   CacheLevel_access now l (JNumber a)
     = (Inr \<lparr>level = name l, hit = False, latency = latency_l l\<rparr>, CacheLevel_insert now l a)"
  by (cases a) simp_all

lemma level_access_hit:
  "a \<noteq> NaN \<Longrightarrow> Map_has (lines l) a \<Longrightarrow>
   CacheLevel_access now l (JNumber a)
     = (Inr \<lparr>level = name l, hit = True, latency = latency_l l\<rparr>, l)"
  by (cases a) simp_all



lemma take9:
  "nine_addresses =
     [JNumber (Fin 0), JNumber (Fin 4), JNumber (Fin 8), JNumber (Fin 12), JNumber (Fin 16),
      JNumber (Fin 20), JNumber (Fin 24), JNumber (Fin 28), JNumber (Fin 32)]"
  by (simp add: nine_addresses_def MOCK_MEMORY_def take_map upt_conv_Cons)

lemma primed_nine_eq:
  "primed_nine =
     \<lparr>levels =
        [\<lparr>name = ''L1'', size_l = 8, latency_l = 8,
          lines = [(Fin 4, 0), (Fin 8, 0), (Fin 12, 0), (Fin 16, 0), (Fin 20, 0), (Fin 24, 0),
                   (Fin 28, 0), (Fin 32, 0)]\<rparr>,
         \<lparr>name = ''L2'', size_l = 16, latency_l = 16,
          lines = [(Fin 0, 0), (Fin 4, 0), (Fin 8, 0), (Fin 12, 0), (Fin 16, 0), (Fin 20, 0),
                   (Fin 24, 0), (Fin 28, 0), (Fin 32, 0)]\<rparr>],
       missLatency = 42\<rparr>"
  by (simp add: primed_nine_def take9 CacheModel_prime_def CacheModel_access_def CacheModel_new_def
      CacheLevel_new_def Map_has_def CacheLevel_insert_def Map_delete_def)

text \<open>
  Claim C1, as stated, fails: on a new hierarchy the address 1 is resident nowhere, the
  access reports the miss with latency 42, and afterwards the address is a line of the
  second level too.
\<close>

theorem full_miss_only_L1_counterexample:
  "\<not> Map_has (lines (levels CacheModel_new ! 0)) (Fin 1)
   \<and> \<not> Map_has (lines (levels CacheModel_new ! 1)) (Fin 1)
   \<and> fst (CacheModel_access (\<lambda>_. 0) CacheModel_new (JNumber (Fin 1)))
       = Inr \<lparr>level = ''memory'', hit = False, latency = 42\<rparr>
   \<and> lines (levels (snd (CacheModel_access (\<lambda>_. 0) CacheModel_new (JNumber (Fin 1)))) ! 1)
       = [(Fin 1, 0)]
   \<and> lines (levels CacheModel_new ! 1) = []"
  by (simp add: CacheModel_access_def CacheModel_new_def CacheLevel_new_def Map_has_def
      CacheLevel_insert_def)

text \<open>
  Claim C1, amended. For every number other than \<^verbatim>\<open>NaN\<close> that is resident in neither
  level, \<^verbatim>\<open>CacheModel.access\<close> returns the miss \<^verbatim>\<open>{level: "memory", hit: false, latency: 42}\<close>,
  and afterwards the address has been inserted into every level, the first and the second:
  in each, the oldest line is evicted first if that level was full, and the address becomes
  the newest line.
\<close>

theorem full_miss_installs_in_every_level:
  assumes "levels m = [l1, l2]" and "missLatency m = 42"
      and "a \<noteq> NaN"
      and "\<not> Map_has (lines l1) a" and "\<not> Map_has (lines l2) a"
      and "distinct (map fst (lines l1))" and "distinct (map fst (lines l2))"
  shows "CacheModel_access clock m (JNumber a) =
     (Inr \<lparr>level = ''memory'', hit = False, latency = 42\<rparr>,
      m\<lparr>levels :=
          [l1\<lparr>lines := (if size_l l1 \<le> length (lines l1) then tl (lines l1) else lines l1)
                          @ [(a, clock 0)]\<rparr>,
           l2\<lparr>lines := (if size_l l2 \<le> length (lines l2) then tl (lines l2) else lines l2)
                          @ [(a, clock 1)]\<rparr>]\<rparr>)"
  using assms
  by (simp add: CacheModel_access_def level_access_miss CacheLevel_insert_lines)

theorem full_miss_installs_in_every_level_witness:
  "levels CacheModel_new = [CacheLevel_new ''L1'' 8 8, CacheLevel_new ''L2'' 16 16]
   \<and> missLatency CacheModel_new = 42
   \<and> Fin 1 \<noteq> NaN
   \<and> \<not> Map_has (lines (CacheLevel_new ''L1'' 8 8)) (Fin 1)
   \<and> \<not> Map_has (lines (CacheLevel_new ''L2'' 16 16)) (Fin 1)
   \<and> distinct (map fst (lines (CacheLevel_new ''L1'' 8 8)))
   \<and> distinct (map fst (lines (CacheLevel_new ''L2'' 16 16)))
   \<and> CacheModel_access (\<lambda>i. 7 + i) CacheModel_new (JNumber (Fin 1)) =
       (Inr \<lparr>level = ''memory'', hit = False, latency = 42\<rparr>,
        \<lparr>levels = [\<lparr>name = ''L1'', size_l = 8, latency_l = 8, lines = [(Fin 1, 7)]\<rparr>,
                    \<lparr>name = ''L2'', size_l = 16, latency_l = 16, lines = [(Fin 1, 8)]\<rparr>],
          missLatency = 42\<rparr>)"
proof -
  have h: "levels CacheModel_new = [CacheLevel_new ''L1'' 8 8, CacheLevel_new ''L2'' 16 16]"
          "missLatency CacheModel_new = 42"
          "Fin 1 \<noteq> NaN"
          "\<not> Map_has (lines (CacheLevel_new ''L1'' 8 8)) (Fin 1)"
          "\<not> Map_has (lines (CacheLevel_new ''L2'' 16 16)) (Fin 1)"
          "distinct (map fst (lines (CacheLevel_new ''L1'' 8 8)))"
          "distinct (map fst (lines (CacheLevel_new ''L2'' 16 16)))"
    by (simp_all add: CacheModel_new_def CacheLevel_new_def Map_has_def)
  show ?thesis
    using h full_miss_installs_in_every_level [OF h, of "\<lambda>i. 7 + i"]
    by (simp add: CacheModel_new_def CacheLevel_new_def)
qed

text \<open>
  Claim C2, as stated, fails. Priming a new hierarchy with nine addresses leaves the first
  of them, 0, in the second level only. The next access to 0 is a hit in the second level
  with latency 16, and it has put 0 into the first level and evicted the address 4 from it.
\<close>

theorem hit_changes_nothing_counterexample:
  "\<not> Map_has (lines (levels primed_nine ! 0)) (Fin 0)
   \<and> Map_has (lines (levels primed_nine ! 1)) (Fin 0)
   \<and> fst (CacheModel_access (\<lambda>_. 1) primed_nine (JNumber (Fin 0)))
       = Inr \<lparr>level = ''L2'', hit = True, latency = 16\<rparr>
   \<and> map fst (lines (levels primed_nine ! 0))
       = [Fin 4, Fin 8, Fin 12, Fin 16, Fin 20, Fin 24, Fin 28, Fin 32]
   \<and> map fst (lines (levels (snd (CacheModel_access (\<lambda>_. 1) primed_nine (JNumber (Fin 0)))) ! 0))
       = [Fin 8, Fin 12, Fin 16, Fin 20, Fin 24, Fin 28, Fin 32, Fin 0]"
  by (simp add: primed_nine_eq CacheModel_access_def Map_has_def CacheLevel_insert_def
      Map_delete_def)

text \<open>
  Claim C2, amended. For every number other than \<^verbatim>\<open>NaN\<close> that is resident in some level,
  \<^verbatim>\<open>CacheModel.access\<close> returns a hit with the name and the latency of the first level
  that contains it. If that is the first level, no level changes. If it is the second
  level, the second level is unchanged, and the first level, which was consulted first and
  missed, has had the address installed: its oldest line has been evicted if it was full,
  and the address is its newest line.
\<close>

theorem hit_installs_in_missed_levels:
  assumes "levels m = [l1, l2]" and "a \<noteq> NaN"
      and "Map_has (lines l1) a \<or> Map_has (lines l2) a"
      and "distinct (map fst (lines l1))"
  shows "CacheModel_access clock m (JNumber a) =
     (if Map_has (lines l1) a
      then (Inr \<lparr>level = name l1, hit = True, latency = latency_l l1\<rparr>, m)
      else (Inr \<lparr>level = name l2, hit = True, latency = latency_l l2\<rparr>,
            m\<lparr>levels :=
                [l1\<lparr>lines := (if size_l l1 \<le> length (lines l1) then tl (lines l1) else lines l1)
                                @ [(a, clock 0)]\<rparr>,
                 l2]\<rparr>))"
proof (cases "Map_has (lines l1) a")
  case True
  have "m\<lparr>levels := [l1, l2]\<rparr> = m" using assms(1) by simp
  then show ?thesis using True assms(1,2)
    by (simp add: CacheModel_access_def level_access_hit)
next
  case False
  then show ?thesis using assms
    by (simp add: CacheModel_access_def level_access_hit level_access_miss
        CacheLevel_insert_lines)
qed

theorem hit_installs_in_missed_levels_witness:
  "levels primed_nine = [levels primed_nine ! 0, levels primed_nine ! 1]
   \<and> Fin 4 \<noteq> NaN \<and> Fin 0 \<noteq> NaN
   \<and> Map_has (lines (levels primed_nine ! 0)) (Fin 4)
   \<and> Map_has (lines (levels primed_nine ! 1)) (Fin 0)
   \<and> distinct (map fst (lines (levels primed_nine ! 0)))
   \<and> CacheModel_access (\<lambda>_. 1) primed_nine (JNumber (Fin 4))
       = (Inr \<lparr>level = ''L1'', hit = True, latency = 8\<rparr>, primed_nine)
   \<and> CacheModel_access (\<lambda>_. 1) primed_nine (JNumber (Fin 0))
       = (Inr \<lparr>level = ''L2'', hit = True, latency = 16\<rparr>,
          \<lparr>levels =
             [\<lparr>name = ''L1'', size_l = 8, latency_l = 8,
               lines = [(Fin 8, 0), (Fin 12, 0), (Fin 16, 0), (Fin 20, 0), (Fin 24, 0),
                        (Fin 28, 0), (Fin 32, 0), (Fin 0, 1)]\<rparr>,
              \<lparr>name = ''L2'', size_l = 16, latency_l = 16,
               lines = [(Fin 0, 0), (Fin 4, 0), (Fin 8, 0), (Fin 12, 0), (Fin 16, 0),
                        (Fin 20, 0), (Fin 24, 0), (Fin 28, 0), (Fin 32, 0)]\<rparr>],
            missLatency = 42\<rparr>)"
proof -
  have l: "levels primed_nine = [levels primed_nine ! 0, levels primed_nine ! 1]"
    by (simp add: primed_nine_eq)
  have n: "Fin 4 \<noteq> NaN" "Fin 0 \<noteq> NaN" by simp_all
  have r4: "Map_has (lines (levels primed_nine ! 0)) (Fin 4)"
   and r0: "Map_has (lines (levels primed_nine ! 1)) (Fin 0)"
   and m0: "\<not> Map_has (lines (levels primed_nine ! 0)) (Fin 0)"
   and d: "distinct (map fst (lines (levels primed_nine ! 0)))"
    by (simp_all add: primed_nine_eq Map_has_def)
  have a: "Map_has (lines (levels primed_nine ! 0)) (Fin 4)
             \<or> Map_has (lines (levels primed_nine ! 1)) (Fin 4)"
   and b: "Map_has (lines (levels primed_nine ! 0)) (Fin 0)
             \<or> Map_has (lines (levels primed_nine ! 1)) (Fin 0)"
    using r4 r0 by simp_all
  have four: "CacheModel_access (\<lambda>_. 1) primed_nine (JNumber (Fin 4))
       = (Inr \<lparr>level = ''L1'', hit = True, latency = 8\<rparr>, primed_nine)"
    using hit_installs_in_missed_levels [OF l n(1) a d, of "\<lambda>_. 1"] r4
    by (simp add: primed_nine_eq)
  have zero: "CacheModel_access (\<lambda>_. 1) primed_nine (JNumber (Fin 0))
       = (Inr \<lparr>level = ''L2'', hit = True, latency = 16\<rparr>,
          \<lparr>levels =
             [\<lparr>name = ''L1'', size_l = 8, latency_l = 8,
               lines = [(Fin 8, 0), (Fin 12, 0), (Fin 16, 0), (Fin 20, 0), (Fin 24, 0),
                        (Fin 28, 0), (Fin 32, 0), (Fin 0, 1)]\<rparr>,
              \<lparr>name = ''L2'', size_l = 16, latency_l = 16,
               lines = [(Fin 0, 0), (Fin 4, 0), (Fin 8, 0), (Fin 12, 0), (Fin 16, 0),
                        (Fin 20, 0), (Fin 24, 0), (Fin 28, 0), (Fin 32, 0)]\<rparr>],
            missLatency = 42\<rparr>)"
    using hit_installs_in_missed_levels [OF l n(2) b d, of "\<lambda>_. 1"] m0
    by (simp add: primed_nine_eq)
  from l n r4 r0 d four zero show ?thesis by simp
qed




section \<open>Properties of the pipeline stage mapper\<close>

lemma first_bad_instruction_None:
  "list_all instruction_ok xs \<Longrightarrow> first_bad_instruction idx xs = None"
  by (induction xs arbitrary: idx) (auto simp: instruction_ok_def)

text \<open>The \<^verbatim>\<open>filter((_, idx) => idx === index)\<close> keeps the element at the index, if there
  is one.\<close>

lemma filter_by_index:
  "map snd (filter (\<lambda>(idx, _). idx = i) (enumerate n xs))
     = (if n \<le> i \<and> i < n + length xs then [xs ! (i - n)] else [])"
proof (induction xs arbitrary: n)
  case Nil
  then show ?case by simp
next
  case (Cons x xs)
  show ?case
  proof (cases "n = i")
    case True
    then show ?thesis using Cons.IH[of "Suc n"] by simp
  next
    case False
    then show ?thesis using Cons.IH[of "Suc n"] by (auto simp: Suc_diff_le)
  qed
qed

lemma js_and_booleans: "typeof v = ''boolean'' \<Longrightarrow> js_and (JBool m) v = JBool (m \<and> Boolean v)"
  by (cases v) (auto simp: js_and_def)

lemma instruction_ok_nth:
  "list_all instruction_ok xs \<Longrightarrow> i < length xs \<Longrightarrow> typeof (get_prop (xs ! i) ''speculative'') = ''boolean''"
  by (simp add: list_all_length instruction_ok_def)

lemma lookup_set_prop: "lookup (set_prop k v ps) k' = (if k' = k then v else lookup ps k')"
  by (induction ps) auto

lemma set_prop_keys:
  "map fst (set_prop k v ps) = (if k \<in> set (map fst ps) then map fst ps else map fst ps @ [k])"
  by (induction ps) (auto simp: rev_image_eqI)

lemma lookup_defined: "lookup ps k \<noteq> JUndefined \<Longrightarrow> k \<in> set (map fst ps)"
  by (induction ps) (auto split: if_splits)

text \<open>An instruction of the right shape is an object that has the property
  \<^verbatim>\<open>speculative\<close> itself.\<close>

lemma instruction_ok_object:
  assumes "instruction_ok x"
  shows "\<exists>ps. x = JObject ps \<and> ''speculative'' \<in> set (map fst ps)"
proof -
  have t: "typeof (get_prop x ''speculative'') = ''boolean''"
    using assms by (simp add: instruction_ok_def)
  then obtain ps where ps: "x = JObject ps" by (cases x) auto
  have "lookup ps ''speculative'' \<noteq> JUndefined" using t ps by auto
  then show ?thesis using ps lookup_defined by blast
qed

lemma boolean_is_True: "typeof v = ''boolean'' \<Longrightarrow> Boolean v = (v = JBool True)"
  by (cases v) auto

text \<open>
  Claim C9. For every list of instructions that each carry a string label and a boolean
  speculative flag, and every boolean \<^verbatim>\<open>mispredict\<close>, \<^verbatim>\<open>Pipeline.simulate\<close> returns the
  stages fetch, decode, execute, retire in this order; stage \<open>i\<close> holds one instruction,
  made from the instruction at index \<open>i\<close> of the input, and holds nothing when the list has
  no index \<open>i\<close>, so an instruction at index 4 or later is in no stage. The instruction in
  the stage is an object with the keys of the input instruction, in their order; its
  property \<^verbatim>\<open>speculative\<close> is true exactly when \<^verbatim>\<open>mispredict\<close> is true and the input's
  flag is true, and every other property reads as in the input.
\<close>

theorem simulate_maps_by_index:
  assumes "list_all instruction_ok xs"
  shows "\<exists>out. Pipeline_simulate Pipeline_new (JArray xs) (JBool m) =
           Inr (map (\<lambda>(i, stg).
                   \<lparr>stage = stg, instructions = (if i < length xs then [out i] else [])\<rparr>)
                [(0, ''fetch''), (1, ''decode''), (2, ''execute''), (3, ''retire'')])
         \<and> (\<forall>i<length xs.
               typeof (out i) = ''object''
               \<and> map fst (own_entries (out i)) = map fst (own_entries (xs ! i))
               \<and> get_prop (out i) ''speculative''
                   = JBool (m \<and> get_prop (xs ! i) ''speculative'' = JBool True)
               \<and> (\<forall>k. k \<noteq> ''speculative'' \<longrightarrow> get_prop (out i) k = get_prop (xs ! i) k))"
proof -
  define out where
    "out i = JObject (set_prop ''speculative''
                        (JBool (m \<and> Boolean (get_prop (xs ! i) ''speculative'')))
                        (own_entries (xs ! i)))" for i
  have spec: "i < length xs \<Longrightarrow>
        js_and (JBool m) (get_prop (xs ! i) ''speculative'')
          = JBool (m \<and> Boolean (get_prop (xs ! i) ''speculative''))" for i
    using assms by (simp add: js_and_booleans instruction_ok_nth)
  have stages: "enumerate 0 (stages Pipeline_new)
      = [(0, ''fetch''), (1, ''decode''), (2, ''execute''), (3, ''retire'')]"
    by (simp add: Pipeline_new_def STAGES_def)
  have run: "Pipeline_simulate Pipeline_new (JArray xs) (JBool m) =
           Inr (map (\<lambda>(i, stg).
                   \<lparr>stage = stg, instructions = (if i < length xs then [out i] else [])\<rparr>)
                [(0, ''fetch''), (1, ''decode''), (2, ''execute''), (3, ''retire'')])"
    using assms
    by (simp add: Pipeline_simulate_def first_bad_instruction_None stages filter_by_index spec
        out_def)
  have each: "typeof (out i) = ''object''
               \<and> map fst (own_entries (out i)) = map fst (own_entries (xs ! i))
               \<and> get_prop (out i) ''speculative''
                   = JBool (m \<and> get_prop (xs ! i) ''speculative'' = JBool True)
               \<and> (\<forall>k. k \<noteq> ''speculative'' \<longrightarrow> get_prop (out i) k = get_prop (xs ! i) k)"
    if "i < length xs" for i
  proof -
    have ok: "instruction_ok (xs ! i)" using assms that by (simp add: list_all_length)
    then obtain ps where ps: "xs ! i = JObject ps" "''speculative'' \<in> set (map fst ps)"
      using instruction_ok_object by blast
    have b: "Boolean (get_prop (xs ! i) ''speculative'')
               = (get_prop (xs ! i) ''speculative'' = JBool True)"
      using ok by (intro boolean_is_True) (simp add: instruction_ok_def)
    show ?thesis
      using ps b by (simp add: out_def lookup_set_prop set_prop_keys)
  qed
  show ?thesis using run each by blast
qed

theorem simulate_maps_by_index_witness:
  "list_all instruction_ok
     (buildSpeculativeSequence (JBool False)
        @ [JObject [(''label'', JString ''late''), (''speculative'', JBool True)]])
   \<and> Pipeline_simulate Pipeline_new
        (JArray (buildSpeculativeSequence (JBool False)
                   @ [JObject [(''label'', JString ''late''), (''speculative'', JBool True)]]))
        (JBool True)
      = Inr [\<lparr>stage = ''fetch'',
              instructions = [JObject [(''label'', JString ''branch''), (''speculative'', JBool False)]]\<rparr>,
             \<lparr>stage = ''decode'',
              instructions = [JObject [(''label'', JString ''fallthrough''), (''speculative'', JBool True)]]\<rparr>,
             \<lparr>stage = ''execute'',
              instructions = [JObject [(''label'', JString ''dependent read''), (''speculative'', JBool True)]]\<rparr>,
             \<lparr>stage = ''retire'',
              instructions = [JObject [(''label'', JString ''retire''), (''speculative'', JBool False)]]\<rparr>]
   \<and> Pipeline_simulate Pipeline_new
        (JArray (buildSpeculativeSequence (JBool False)
                   @ [JObject [(''label'', JString ''late''), (''speculative'', JBool True)]]))
        (JBool False)
      = Inr [\<lparr>stage = ''fetch'',
              instructions = [JObject [(''label'', JString ''branch''), (''speculative'', JBool False)]]\<rparr>,
             \<lparr>stage = ''decode'',
              instructions = [JObject [(''label'', JString ''fallthrough''), (''speculative'', JBool False)]]\<rparr>,
             \<lparr>stage = ''execute'',
              instructions = [JObject [(''label'', JString ''dependent read''), (''speculative'', JBool False)]]\<rparr>,
             \<lparr>stage = ''retire'',
              instructions = [JObject [(''label'', JString ''retire''), (''speculative'', JBool False)]]\<rparr>]"
proof -
  have h: "list_all instruction_ok
     (buildSpeculativeSequence (JBool False)
        @ [JObject [(''label'', JString ''late''), (''speculative'', JBool True)]])"
    by (simp add: buildSpeculativeSequence_def instruction_ok_def)
  have stages: "enumerate 0 (stages Pipeline_new)
      = [(0, ''fetch''), (1, ''decode''), (2, ''execute''), (3, ''retire'')]"
    by (simp add: Pipeline_new_def STAGES_def)
  show ?thesis
    using h simulate_maps_by_index [OF h, of True] simulate_maps_by_index [OF h, of False]
    by (simp add: Pipeline_simulate_def buildSpeculativeSequence_def stages js_and_def
        instruction_ok_def Let_def)
qed

section \<open>Properties of the arithmetic\<close>

lemma round_half_even_int: "round_half_even (of_int k) = k"
  by (simp add: round_half_even_def)

lemma round_half_even_error: "\<bar>of_int (round_half_even q) - q\<bar> \<le> 1 / 2"
  unfolding round_half_even_def Let_def by (auto; linarith)

lemma powr_two_int: "(2::real) powr real_of_int k = 2 powi k"
  by (rule powr_real_of_int') simp_all

lemma floor_log2_iff:
  assumes "x \<noteq> 0"
  shows "\<lfloor>log 2 \<bar>x\<bar>\<rfloor> = k \<longleftrightarrow> 2 powi k \<le> \<bar>x\<bar> \<and> \<bar>x\<bar> < 2 powi (k + 1)"
proof -
  have p: "\<bar>x\<bar> > 0" using assms by simp
  have s: "real_of_int k + 1 = real_of_int (k + 1)" by simp
  show ?thesis
    unfolding floor_log_eq_powr_iff[OF p, of 2 k, simplified] s powr_two_int ..
qed

lemma floor_log2_bounds:
  assumes "x \<noteq> 0"
  shows "2 powi \<lfloor>log 2 \<bar>x\<bar>\<rfloor> \<le> \<bar>x\<bar>" and "\<bar>x\<bar> < 2 powi (\<lfloor>log 2 \<bar>x\<bar>\<rfloor> + 1)"
  using floor_log2_iff[OF assms, of "\<lfloor>log 2 \<bar>x\<bar>\<rfloor>"] by simp_all

lemma floor_log2_less:
  assumes "x \<noteq> 0" and "\<bar>x\<bar> < 2 powi k"
  shows "\<lfloor>log 2 \<bar>x\<bar>\<rfloor> < k"
proof (rule ccontr)
  assume "\<not> \<lfloor>log 2 \<bar>x\<bar>\<rfloor> < k"
  then have "k \<le> \<lfloor>log 2 \<bar>x\<bar>\<rfloor>" by simp
  then have "(2::real) powi k \<le> 2 powi \<lfloor>log 2 \<bar>x\<bar>\<rfloor>"
    by (intro power_int_increasing) simp_all
  then show False using floor_log2_bounds(1)[OF assms(1)] assms(2) by linarith
qed


lemma ulp_exponent_bounds:
  assumes "x \<noteq> 0" and "\<bar>x\<bar> < 2 powi k"
  shows "- 1074 \<le> ulp_exponent x" and "ulp_exponent x \<le> max (- 1074) (k - 53)"
  using floor_log2_less[OF assms] by (simp_all add: ulp_exponent_def)

text \<open>An integer below \<open>2 ^ 53\<close> in magnitude is a double.\<close>

lemma to_double_int:
  assumes "x \<in> \<int>" and "\<bar>x\<bar> < 2 ^ 53"
  shows "to_double x = Fin x"
proof (cases "x = 0")
  case True
  then show ?thesis by (simp add: to_double_def)
next
  case False
  obtain k :: int where k: "x = of_int k" using assms(1) by (auto elim: Ints_cases)
  define e where "e = ulp_exponent x"
  have "\<bar>x\<bar> < 2 powi 53" using assms(2) by simp
  then have e: "- 1074 \<le> e" "e \<le> 0"
    using ulp_exponent_bounds[OF False, of 53] by (simp_all add: e_def)
  have inv: "(2::real) powi e = 1 / 2 ^ nat (- e)"
    using e by (simp add: power_int_def field_simps)
  have q: "x / 2 powi e = of_int (k * 2 ^ nat (- e))"
    by (simp add: inv k)
  have "of_int (round_half_even (x / 2 powi e)) * 2 powi e = x"
    unfolding q round_half_even_int by (simp add: inv k)
  moreover have "\<bar>x\<bar> < 2 ^ 1024"
  proof -
    have "(2::real) ^ 53 \<le> 2 ^ 1024" by (rule power_increasing) simp_all
    then show ?thesis using assms(2) by linarith
  qed
  ultimately show ?thesis using False by (simp add: to_double_def Let_def e_def)
qed

text \<open>Rounding moves a value of magnitude below \<open>2 ^ n\<close> by at most half a unit in the
  last place, which is at most \<open>2 ^ n / 2 ^ 54\<close> (or the smallest subnormal step).\<close>

lemma to_double_error:
  assumes "\<bar>x\<bar> < 2 powi k" and "- 1021 \<le> k" and "k \<le> 1023"
  shows "\<exists>y. to_double x = Fin y \<and> \<bar>y - x\<bar> \<le> 2 powi (k - 54)"
proof (cases "x = 0")
  case True
  then show ?thesis by (simp add: to_double_def)
next
  case False
  define e where "e = ulp_exponent x"
  define y :: real where "y = of_int (round_half_even (x / 2 powi e)) * 2 powi e"
  have e: "e \<le> k - 53"
    using ulp_exponent_bounds(2)[OF False assms(1)] assms(2) by (simp add: e_def)
  have pos: "(2::real) powi e > 0" by simp
  have "y - x = (of_int (round_half_even (x / 2 powi e)) - x / 2 powi e) * 2 powi e"
    using pos by (simp add: y_def field_simps)
  then have "\<bar>y - x\<bar> = \<bar>of_int (round_half_even (x / 2 powi e)) - x / 2 powi e\<bar> * 2 powi e"
    using pos by (simp add: abs_mult)
  also have "\<dots> \<le> (1 / 2) * 2 powi e"
    using round_half_even_error[of "x / 2 powi e"] pos by (intro mult_right_mono) simp_all
  also have "\<dots> = 2 powi (e - 1)"
    by (simp add: power_int_diff)
  also have "\<dots> \<le> 2 powi (k - 54)"
    using e by (intro power_int_increasing) simp_all
  finally have err: "\<bar>y - x\<bar> \<le> 2 powi (k - 54)" .
  have "(2::real) powi (k - 54) \<le> 2 powi k" by (intro power_int_increasing) simp_all
  then have "\<bar>y\<bar> < 2 * 2 powi k" using err assms(1) by linarith
  also have "\<dots> = 2 powi (k + 1)" by (simp add: power_int_add)
  also have "\<dots> \<le> 2 powi 1024" using assms(3) by (intro power_int_increasing) simp_all
  finally have "\<bar>y\<bar> < 2 ^ 1024" by simp
  then have "to_double x = Fin y"
    using False by (simp add: to_double_def Let_def e_def y_def)
  then show ?thesis using err by simp
qed

text \<open>Evaluation of the rounding at a value whose binary exponent is known.\<close>

lemma to_double_at:
  assumes "2 powi k \<le> \<bar>x\<bar>" and "\<bar>x\<bar> < 2 powi (k + 1)" and "- 1022 \<le> k" and "k < 1023"
  shows "to_double x = Fin (of_int (round_half_even (x / 2 powi (k - 52))) * 2 powi (k - 52))"
proof -
  have nz: "x \<noteq> 0" using assms(1) by (smt (verit) zero_less_power_int)
  have "\<lfloor>log 2 \<bar>x\<bar>\<rfloor> = k" using floor_log2_iff[OF nz, of k] assms(1,2) by simp
  then have e: "ulp_exponent x = k - 52" using assms(3) by (simp add: ulp_exponent_def)
  obtain y where y: "to_double x = Fin y"
    using to_double_error[OF assms(2)] assms(3,4) by auto
  then show ?thesis
    using nz e by (auto simp: to_double_def Let_def split: if_splits simp: signed_inf_def)
qed

lemma to_double_not_NaN: "to_double x \<noteq> NaN"
  by (simp add: to_double_def Let_def signed_inf_def)

lemma Math_floor_not_NaN: "v \<noteq> NaN \<Longrightarrow> Math_floor v \<noteq> NaN"
  by (cases v) simp_all

lemma num_add_Fin_right: "a \<noteq> NaN \<Longrightarrow> num_add a (Fin y) \<noteq> NaN"
  by (cases a) (simp_all add: to_double_not_NaN)

lemma num_add_Fin_left: "b \<noteq> NaN \<Longrightarrow> num_add (Fin x) b \<noteq> NaN"
  by (cases b) (simp_all add: to_double_not_NaN)

lemma clampTiming_not_NaN: "v \<noteq> NaN \<Longrightarrow> \<exists>y. clampTiming v = Fin y"
  by (cases v) (simp_all add: clampTiming_def)

lemma clampTiming_Fin: "clampTiming (Fin x) = Fin (max 20 (min x 180))"
  by (simp add: clampTiming_def)

lemma jitter_not_NaN: "jitter r \<noteq> NaN"
  by (simp add: jitter_def num_sub_def num_add_Fin_right Math_floor_not_NaN to_double_not_NaN)

text \<open>
  \<^verbatim>\<open>Math.round(x / 5) * 5\<close> in doubles, for a value of magnitude at most \<open>2 ^ 52\<close>: the
  quotient is rounded by at most \<open>1 / 16\<close>, and the product of the resulting integer with
  5 is below \<open>2 ^ 53\<close> and therefore exact.
\<close>

lemma round_to_five:
  assumes "\<bar>x\<bar> \<le> 2 ^ 52"
  shows "\<exists>n::int. num_mul (Math_round (num_div (Fin x) (Fin 5))) (Fin 5) = Fin (5 * of_int n)
                 \<and> \<bar>5 * of_int n - x\<bar> \<le> 3"
proof -
  have "\<bar>x / 5\<bar> < 2 powi 50" using assms by simp
  then obtain y where y: "to_double (x / 5) = Fin y" and err: "\<bar>y - x / 5\<bar> \<le> 2 powi (50 - 54)"
    using to_double_error[of "x / 5" 50] by auto
  have err': "\<bar>y - x / 5\<bar> \<le> 1 / 16" using err by (simp add: power_int_def power_divide)
  define n where "n = \<lfloor>y + 1 / 2\<rfloor>"
  have n: "\<bar>of_int n - y\<bar> \<le> 1 / 2" unfolding n_def by linarith
  have close: "\<bar>5 * of_int n - x\<bar> \<le> 3" using n err' by linarith
  have "\<bar>of_int n * 5 :: real\<bar> < 2 ^ 53" using close assms by simp
  moreover have "(of_int n * 5 :: real) \<in> \<int>" by simp
  ultimately have "to_double (of_int n * 5) = Fin (of_int n * 5)" by (rule to_double_int[rotated])
  then have "num_mul (Math_round (num_div (Fin x) (Fin 5))) (Fin 5) = Fin (5 * of_int n)"
    by (simp add: y n_def mult.commute)
  then show ?thesis using close by blast
qed

section \<open>Properties of the defence toolkit\<close>

lemma set_prop_fresh: "k \<notin> set (map fst ps) \<Longrightarrow> set_prop k v ps = ps @ [(k, v)]"
  by (induction ps) auto

text \<open>From entries with distinct keys, \<^verbatim>\<open>Object.fromEntries\<close> builds the object with
  exactly these entries, in their order.\<close>

lemma fromEntries_from:
  "distinct (map fst (acc @ es)) \<Longrightarrow> foldl (\<lambda>obj (k, v). set_prop k v obj) acc es = acc @ es"
proof (induction es arbitrary: acc)
  case Nil
  then show ?case by simp
next
  case (Cons e es)
  obtain k v where e: "e = (k, v)" by (cases e)
  have "k \<notin> set (map fst acc)" using Cons.prems e by auto
  then have "set_prop k v acc = acc @ [(k, v)]" by (rule set_prop_fresh)
  moreover have "distinct (map fst ((acc @ [(k, v)]) @ es))" using Cons.prems e by simp
  ultimately show ?case using Cons.IH[of "acc @ [(k, v)]"] e by simp
qed

lemma fromEntries_distinct: "distinct (map fst es) \<Longrightarrow> fromEntries es = es"
  using fromEntries_from[of "[]" es] by (simp add: fromEntries_def)

lemma setToggle_keys:
  "nm \<in> set five_keys \<Longrightarrow> map fst (state tk) = five_keys \<Longrightarrow>
   map fst (state (snd (setToggle nm tk v))) = five_keys"
  by (simp add: setToggle_def set_prop_keys split: option.splits)

lemma apply_call_keys:
  "map fst (state tk) = five_keys \<Longrightarrow> map fst (state (apply_call tk c)) = five_keys"
  by (cases c)
     (simp_all add: setConstantTime_def setJitter_def setFence_def setClampTimers_def
        setDetection_def setToggle_keys five_keys_def)

lemma foldl_apply_call_keys:
  "map fst (state tk) = five_keys \<Longrightarrow> map fst (state (foldl apply_call tk calls)) = five_keys"
  by (induction calls arbitrary: tk) (simp_all add: apply_call_keys)

lemma after_calls_keys: "map fst (state (after_calls calls)) = five_keys"
  unfolding after_calls_def
  by (rule foldl_apply_call_keys) (simp add: DefenceToolkit_new_def five_keys_def)

text \<open>
  Claim C8. After every sequence of setter calls on a new toolkit (with any arguments;
  the calls with a non-boolean argument throw and change nothing), \<^verbatim>\<open>getState(false)\<close>
  returns the object with the five keys \<^verbatim>\<open>constantTime\<close>, \<^verbatim>\<open>jitter\<close>, \<^verbatim>\<open>fence\<close>,
  \<^verbatim>\<open>clampTimers\<close>, \<^verbatim>\<open>detection\<close>, all \<^verbatim>\<open>false\<close>. The method only reads the stored
  toggles, so the toolkit is the same afterwards: \<^verbatim>\<open>getState(true)\<close> returns the toggles as
  the setters left them.
\<close>

theorem getState_baseline_all_false:
  "getState (after_calls calls) (JBool False) =
     [(''constantTime'', JBool False), (''jitter'', JBool False), (''fence'', JBool False),
      (''clampTimers'', JBool False), (''detection'', JBool False)]
   \<and> getState (after_calls calls) (JBool True) = state (after_calls calls)
   \<and> map fst (state (after_calls calls))
       = [''constantTime'', ''jitter'', ''fence'', ''clampTimers'', ''detection'']"
proof -
  have k: "map fst (state (after_calls calls)) = five_keys" by (rule after_calls_keys)
  have "getState (after_calls calls) (JBool False)
          = fromEntries (map (\<lambda>key. (key, JBool False)) (map fst (state (after_calls calls))))"
    by (simp add: getState_def del: map_map)
  also have "\<dots> = fromEntries (map (\<lambda>key. (key, JBool False)) five_keys)"
    by (simp only: k)
  also have "\<dots> = map (\<lambda>key. (key, JBool False)) five_keys"
    by (rule fromEntries_distinct) (simp add: five_keys_def)
  finally show ?thesis
    using k by (simp add: getState_def five_keys_def)
qed


theorem getState_baseline_all_false_witness:
  "getState (after_calls [SetDetection (JBool True), SetFence (JString ''nope''), SetJitter (JBool False)])
     (JBool False) =
     [(''constantTime'', JBool False), (''jitter'', JBool False), (''fence'', JBool False),
      (''clampTimers'', JBool False), (''detection'', JBool False)]
   \<and> getState (after_calls [SetDetection (JBool True), SetFence (JString ''nope''), SetJitter (JBool False)])
       (JBool True) =
     [(''constantTime'', JBool True), (''jitter'', JBool False), (''fence'', JBool True),
      (''clampTimers'', JBool True), (''detection'', JBool True)]"
  using getState_baseline_all_false
          [of "[SetDetection (JBool True), SetFence (JString ''nope''), SetJitter (JBool False)]"]
  by (simp add: after_calls_def setDetection_def setFence_def setJitter_def setToggle_def
      assertBoolean_def DefenceToolkit_new_def)

lemma finite_record_valid: "finite_record ps \<Longrightarrow> validateTimings (JObject ps) = None"
proof -
  assume a: "finite_record ps"
  have "find (\<lambda>(key, v). typeof v \<noteq> ''number'' \<or> isNaN v) ps = None"
  proof -
    have "\<And>k v. (k, v) \<in> set ps \<Longrightarrow> typeof v = ''number'' \<and> \<not> isNaN v"
    proof -
      fix k v assume "(k, v) \<in> set ps"
      then have "is_finite v" using a by (auto simp: finite_record_def list_all_iff)
      then show "typeof v = ''number'' \<and> \<not> isNaN v"
        by (cases v rule: is_finite.cases) auto
    qed
    then show ?thesis by (auto simp: find_None_iff)
  qed
  then show ?thesis using a by (simp add: validateTimings_def finite_record_def)
qed

lemma fromEntries_values:
  "list_all (\<lambda>(k, v). P v) acc \<Longrightarrow> list_all (\<lambda>(k, v). P v) es \<Longrightarrow>
   list_all (\<lambda>(k, v). P v) (foldl (\<lambda>obj (k, v). set_prop k v obj) acc es)"
proof (induction es arbitrary: acc)
  case Nil
  then show ?case by simp
next
  case (Cons e es)
  obtain k v where e: "e = (k, v)" by (cases e)
  have "list_all (\<lambda>(k, v). P v) (set_prop k v acc)"
    using Cons.prems e by (induction acc) auto
  then show ?case using Cons e by simp
qed

lemma fromEntries_keys:
  "set (map fst (foldl (\<lambda>obj (k, v). set_prop k v obj) acc es)) = set (map fst acc) \<union> set (map fst es)"
proof (induction es arbitrary: acc)
  case Nil
  then show ?case by simp
next
  case (Cons e es)
  obtain k v where e: "e = (k, v)" by (cases e)
  have "set (map fst (set_prop k v acc)) = insert k (set (map fst acc))"
    by (auto simp: set_prop_keys)
  then show ?case using Cons.IH[of "set_prop k v acc"] e by auto
qed

lemma enumerate_keys:
  "map fst (map (\<lambda>(i, (key, v)). (key, g i v)) (enumerate n ps)) = map fst ps"
  by (induction ps arbitrary: n) auto

lemma lookup_finite:
  "list_all (\<lambda>(k, v). is_finite v) ps \<Longrightarrow> key \<in> set (map fst ps) \<Longrightarrow> is_finite (lookup ps key)"
  by (induction ps) (auto simp: rev_image_eqI)

lemma set_prop_finite:
  "list_all (\<lambda>(k, v). is_finite v) ps \<Longrightarrow> is_finite v \<Longrightarrow>
   list_all (\<lambda>(k, v). is_finite v) (set_prop key v ps)"
  by (induction ps) auto

text \<open>
  What does hold of \<^verbatim>\<open>applyDefences\<close>: for a valid timing record that has a
  \<^verbatim>\<open>speculate\<close> entry, every random source, every \<^verbatim>\<open>mispredict\<close> and every state object,
  the call returns a record whose values are all finite numbers.
\<close>

lemma applyDefences_finite_with_speculate:
  assumes "finite_record ps" and "''speculate'' \<in> set (map fst ps)" and "state0 \<noteq> JNull"
  shows "\<exists>r. applyDefences tk rnd (JObject ps) mis state0 = Inr r
            \<and> list_all (\<lambda>(k, v). is_finite v) r"
proof -
  define st where "st = (if state0 = JUndefined then JObject (state tk) else state0)"
  define j where "j = map (\<lambda>(i, (key, v)).
                   (key, JNumber (clampTiming (num_add (ToNumber v) (jitter (rnd i))))))
                (enumerate 0 ps)"
  define jittered where
    "jittered = (if Boolean (get_prop st ''jitter'') then fromEntries j else ps)"
  define jittered' where
    "jittered' = (if Boolean (js_and (get_prop st ''fence'') mis)
                  then set_prop ''speculate''
                         (JNumber (clampTiming (num_div (ToNumber (lookup jittered ''speculate'')) (Fin 2))))
                         jittered
                  else jittered)"
  have fin: "list_all (\<lambda>(k, v). is_finite v) ps"
    using assms(1) by (simp add: finite_record_def)
  have jfin: "list_all (\<lambda>(k, v). is_finite v) j"
  proof -
    have "\<And>i k v. (i, (k, v)) \<in> set (enumerate 0 ps) \<Longrightarrow>
            is_finite (JNumber (clampTiming (num_add (ToNumber v) (jitter (rnd i)))))"
    proof -
      fix i k v assume "(i, (k, v)) \<in> set (enumerate 0 ps)"
      then have "snd (i, (k, v)) \<in> snd ` set (enumerate 0 ps)" by (rule imageI)
      moreover have "snd ` set (enumerate 0 ps) = set ps"
        by (metis map_snd_enumerate set_map)
      ultimately have "(k, v) \<in> set ps" by simp
      then have "is_finite v" using fin by (auto simp: list_all_iff)
      then obtain x where x: "v = JNumber (Fin x)"
        by (cases v rule: is_finite.cases) auto
      obtain y where "clampTiming (num_add (Fin x) (jitter (rnd i))) = Fin y"
        using clampTiming_not_NaN[OF num_add_Fin_left[OF jitter_not_NaN]] by blast
      then show "is_finite (JNumber (clampTiming (num_add (ToNumber v) (jitter (rnd i)))))"
        using x by simp
    qed
    then show ?thesis by (auto simp: list_all_iff j_def)
  qed
  have jkeys: "set (map fst j) = set (map fst ps)"
    unfolding j_def by (simp only: enumerate_keys)
  have f1: "list_all (\<lambda>(k, v). is_finite v) jittered"
    using fin jfin fromEntries_values[of is_finite "[]" j]
    by (simp add: fromEntries_def jittered_def)
  have k1: "''speculate'' \<in> set (map fst jittered)"
    using assms(2) jkeys fromEntries_keys[of "[]" j]
    by (simp add: fromEntries_def jittered_def)
  have "is_finite (lookup jittered ''speculate'')"
    using f1 k1 by (rule lookup_finite)
  then obtain s where s: "lookup jittered ''speculate'' = JNumber (Fin s)"
    by (cases "lookup jittered ''speculate''" rule: is_finite.cases) auto
  obtain h where "clampTiming (to_double (s / 2)) = Fin h"
    using clampTiming_not_NaN[OF to_double_not_NaN] by blast
  then have half:
    "is_finite (JNumber (clampTiming (num_div (ToNumber (lookup jittered ''speculate'')) (Fin 2))))"
    using s by simp
  have f2: "list_all (\<lambda>(k, v). is_finite v) jittered'"
    unfolding jittered'_def using f1 set_prop_finite[OF f1 half] by simp
  have st: "st \<noteq> JNull" using assms(3) by (simp add: st_def)
  have "applyDefences tk rnd (JObject ps) mis state0 = Inr jittered'"
    using finite_record_valid[OF assms(1)] st
    by (simp add: applyDefences_def Let_def st_def jittered_def jittered'_def j_def)
  then show ?thesis using f2 by simp
qed

text \<open>
  Claim C5 fails on the code. The record \<^verbatim>\<open>{a: 50}\<close> is a valid timing record without a
  \<^verbatim>\<open>speculate\<close> entry. With \<^verbatim>\<open>mispredict\<close> true and the fence on (the default toggles of
  a new toolkit, or an explicit state with the jitter off), \<^verbatim>\<open>applyDefences\<close> halves the
  missing entry and returns a record with \<^verbatim>\<open>speculate: NaN\<close>, whatever the random source
  gives.
\<close>

theorem applyDefences_introduces_NaN:
  "finite_record [(''a'', JNumber (Fin 50))]
   \<and> applyDefences DefenceToolkit_new rnd (JObject [(''a'', JNumber (Fin 50))]) (JBool True) JUndefined
       = Inr [(''a'', JNumber (clampTiming (num_add (Fin 50) (jitter (rnd 0))))),
              (''speculate'', JNumber NaN)]
   \<and> applyDefences DefenceToolkit_new rnd (JObject [(''a'', JNumber (Fin 50))]) (JBool True)
         (JObject [(''constantTime'', JBool True), (''jitter'', JBool False), (''fence'', JBool True),
                   (''clampTimers'', JBool True), (''detection'', JBool True)])
       = Inr [(''a'', JNumber (Fin 50)), (''speculate'', JNumber NaN)]
   \<and> validateTimings (JObject [(''a'', JNumber (Fin 50)), (''speculate'', JNumber NaN)])
       = Some (TimingNotNumeric ''speculate'')"
  by (simp add: finite_record_def applyDefences_def validateTimings_def DefenceToolkit_new_def
      js_and_def fromEntries_def clampTiming_def)

theorem applyDefences_introduces_NaN_witness:
  "applyDefences DefenceToolkit_new (\<lambda>_. 4 / 10) (JObject [(''a'', JNumber (Fin 50))]) (JBool True) JUndefined
     = Inr [(''a'', JNumber (Fin 49)), (''speculate'', JNumber NaN)]"
  using applyDefences_introduces_NaN [of "\<lambda>_. 4 / 10"]
  by (simp add: jitter_def num_sub_def clampTiming_def to_double_int)

lemma to_double_12_fifths: "to_double (12 / 5) = Fin (5404319552844595 / 2251799813685248)"
proof -
  have q: "(12 / 5 / 2 powi (1 - 52) :: real) = 27021597764222976 / 5"
    by (simp add: power_int_def power_divide)
  have r: "round_half_even (27021597764222976 / 5) = 5404319552844595"
    by (simp add: round_half_even_def)
  have "to_double (12 / 5) =
          Fin (of_int (round_half_even (12 / 5 / 2 powi (1 - 52))) * 2 powi (1 - 52))"
    by (rule to_double_at) simp_all
  then show ?thesis unfolding q r by (simp add: power_int_def power_divide)
qed

lemma to_double_big_quotient:
  "to_double (9007199254740994 / 5) = Fin (7205759403792795 / 4)"
proof -
  have q: "(9007199254740994 / 5 / 2 powi (50 - 52) :: real) = 36028797018963976 / 5"
    by (simp add: power_int_def power_divide)
  have r: "round_half_even (36028797018963976 / 5) = 7205759403792795"
    by (simp add: round_half_even_def)
  have "to_double (9007199254740994 / 5) =
          Fin (of_int (round_half_even (9007199254740994 / 5 / 2 powi (50 - 52))) * 2 powi (50 - 52))"
    by (rule to_double_at) (simp_all add: power_int_def)
  then show ?thesis unfolding q r by (simp add: power_int_def power_divide)
qed

lemma to_double_big_product: "to_double 9007199254740995 = Fin 9007199254740996"
proof -
  have "to_double 9007199254740995 =
          Fin (of_int (round_half_even (9007199254740995 / 2 powi (53 - 52))) * 2 powi (53 - 52))"
    by (rule to_double_at) simp_all
  then show ?thesis by (simp add: round_half_even_def)
qed

text \<open>
  Claim C6, as stated, fails in both parts. The method \<^verbatim>\<open>clampTiming\<close> of the toolkit only
  rounds: the valid record \<^verbatim>\<open>{a: 1000}\<close> comes back unchanged, and 1000 is above 180. And
  for a large value the product \<^verbatim>\<open>Math.round(v / 5) * 5\<close> is itself rounded to a double:
  \<^verbatim>\<open>{a: 9007199254740994}\<close> comes back as \<^verbatim>\<open>{a: 9007199254740996}\<close>, which is not a
  multiple of 5.
\<close>

theorem toolkit_clampTiming_in_range_counterexample:
  "finite_record [(''a'', JNumber (Fin 1000))]
   \<and> DefenceToolkit_clampTiming (JObject [(''a'', JNumber (Fin 1000))])
       = Inr [(''a'', JNumber (Fin 1000))]
   \<and> \<not> (1000 \<le> (180::real))
   \<and> finite_record [(''a'', JNumber (Fin 9007199254740994))]
   \<and> DefenceToolkit_clampTiming (JObject [(''a'', JNumber (Fin 9007199254740994))])
       = Inr [(''a'', JNumber (Fin 9007199254740996))]
   \<and> \<not> (5 dvd (9007199254740996::int))"
proof -
  have "\<lfloor>7205759403792795 / 4 + 1 / 2 :: real\<rfloor> = 1801439850948199" by simp
  then have big: "num_mul (Math_round (to_double (9007199254740994 / 5))) (Fin 5)
                    = Fin 9007199254740996"
    by (simp add: to_double_big_quotient to_double_big_product)
  show ?thesis
    by (simp add: finite_record_def DefenceToolkit_clampTiming_def validateTimings_def
        fromEntries_def to_double_int big)
qed

text \<open>
  Claim C6, amended. For every valid timing record (an object with at least one entry, all
  values finite numbers) whose values have magnitude at most \<open>2 ^ 52\<close>, the method
  \<^verbatim>\<open>clampTiming\<close> of the toolkit returns the record with the same keys in which every value
  \<open>v\<close> has become \<^verbatim>\<open>Math.round(v / 5) * 5\<close>, computed in doubles: a multiple of 5 that
  differs from \<open>v\<close> by at most 3. The values are not brought into the range from 20 to
  180.
\<close>

theorem toolkit_clampTiming_multiples_of_five:
  assumes "finite_record ps"
      and "list_all (\<lambda>(k, v). magnitude_at_most (2 ^ 52) v) ps"
      and "distinct (map fst ps)"
  shows "\<exists>r. DefenceToolkit_clampTiming (JObject ps) = Inr r
            \<and> r = map (\<lambda>(k, v). (k, JNumber (num_mul (Math_round (num_div (ToNumber v) (Fin 5))) (Fin 5)))) ps
            \<and> map fst r = map fst ps
            \<and> list_all2 (\<lambda>(k, v) (k', v'). k' = k
                   \<and> (\<exists>x (n::int). v = JNumber (Fin x) \<and> v' = JNumber (Fin (5 * of_int n))
                        \<and> \<bar>5 * of_int n - x\<bar> \<le> 3)) ps r"
proof -
  let ?f = "\<lambda>(k, v). (k, JNumber (num_mul (Math_round (num_div (ToNumber v) (Fin 5))) (Fin 5)))"
  have keys: "map fst (map ?f ps) = map fst ps" by (induction ps) auto
  then have "fromEntries (map ?f ps) = map ?f ps"
    using assms(3) by (simp add: fromEntries_distinct del: map_map)
  then have res: "DefenceToolkit_clampTiming (JObject ps) = Inr (map ?f ps)"
    using finite_record_valid[OF assms(1)] by (simp add: DefenceToolkit_clampTiming_def)
  have each: "\<exists>x (n::int). v = JNumber (Fin x)
                \<and> num_mul (Math_round (num_div (ToNumber v) (Fin 5))) (Fin 5) = Fin (5 * of_int n)
                \<and> \<bar>5 * of_int n - x\<bar> \<le> 3"
    if "(k, v) \<in> set ps" for k v
  proof -
    have "magnitude_at_most (2 ^ 52) v" using that assms(2) by (auto simp: list_all_iff)
    then obtain x where x: "v = JNumber (Fin x)" "\<bar>x\<bar> \<le> 2 ^ 52"
      by (cases "(2 ^ 52 :: real, v)" rule: magnitude_at_most.cases) auto
    from round_to_five[OF x(2)] x(1) show ?thesis by auto
  qed
  have "list_all2 (\<lambda>(k, v) (k', v'). k' = k
                   \<and> (\<exists>x (n::int). v = JNumber (Fin x) \<and> v' = JNumber (Fin (5 * of_int n))
                        \<and> \<bar>5 * of_int n - x\<bar> \<le> 3)) ps (map ?f ps)"
    unfolding list_all2_map2 by (rule list_all2_same[THEN iffD2]) (use each in auto)
  then show ?thesis using res keys by simp
qed

theorem toolkit_clampTiming_multiples_of_five_witness:
  "finite_record [(''prime'', JNumber (Fin 12)), (''probe'', JNumber (Fin 1000))]
   \<and> list_all (\<lambda>(k, v). magnitude_at_most (2 ^ 52) v)
        [(''prime'', JNumber (Fin 12)), (''probe'', JNumber (Fin 1000))]
   \<and> distinct (map fst [(''prime'', JNumber (Fin 12)), (''probe'', JNumber (Fin 1000))])
   \<and> DefenceToolkit_clampTiming
        (JObject [(''prime'', JNumber (Fin 12)), (''probe'', JNumber (Fin 1000))])
       = Inr [(''prime'', JNumber (Fin 10)), (''probe'', JNumber (Fin 1000))]"
proof -
  have h: "finite_record [(''prime'', JNumber (Fin 12)), (''probe'', JNumber (Fin 1000))]"
          "list_all (\<lambda>(k, v). magnitude_at_most (2 ^ 52) v)
             [(''prime'', JNumber (Fin 12)), (''probe'', JNumber (Fin 1000))]"
          "distinct (map fst [(''prime'', JNumber (Fin 12)), (''probe'', JNumber (Fin 1000))])"
    by (simp_all add: finite_record_def)
  have "\<lfloor>5404319552844595 / 2251799813685248 + 1 / 2 :: real\<rfloor> = 2" by simp
  then have twelve: "num_mul (Math_round (to_double (12 / 5))) (Fin 5) = Fin 10"
    by (simp add: to_double_12_fifths to_double_int)
  show ?thesis
    using h toolkit_clampTiming_multiples_of_five [OF h]
    by (auto simp: twelve to_double_int)
qed

section \<open>Properties of the scenario runner\<close>

lemma baseline_lookup:
  "(\<forall>k. lookup acc k = JUndefined \<or> lookup acc k = JBool False) \<Longrightarrow>
   lookup (foldl (\<lambda>obj (k, v). set_prop k v obj) acc (map (\<lambda>key. (key, JBool False)) ks)) k'
     \<in> {JUndefined, JBool False}"
proof (induction ks arbitrary: acc)
  case Nil
  then show ?case by auto
next
  case (Cons a ks)
  have "\<forall>k. lookup (set_prop a (JBool False) acc) k = JUndefined
           \<or> lookup (set_prop a (JBool False) acc) k = JBool False"
    using Cons.prems by (simp add: lookup_set_prop)
  from Cons.IH[OF this] show ?case by simp
qed

text \<open>In the baseline view every toggle is falsy, whatever the toolkit holds.\<close>

lemma baseline_falsy: "\<not> Boolean (lookup (getState tk (JBool False)) k)"
proof -
  have "lookup (getState tk (JBool False)) k \<in> {JUndefined, JBool False}"
    unfolding getState_def fromEntries_def Let_def
    using baseline_lookup[of "[]" "map fst (state tk)" k] by (simp del: map_map)
  then show ?thesis by auto
qed

lemma select_two:
  "selectAddresses sim (Suc (Suc 0)) (JObject ds) = Inr [JNumber (Fin 0), JNumber (Fin 4)]"
  by (simp add: selectAddresses_def MOCK_MEMORY_def take_map upt_conv_Cons applyFence_def
      assertAddresses_def)

lemma select_six:
  "selectAddresses sim (Suc (Suc (Suc (Suc (Suc (Suc 0)))))) (JObject ds) =
     Inr [JNumber (Fin 0), JNumber (Fin 4), JNumber (Fin 8), JNumber (Fin 12), JNumber (Fin 16),
          JNumber (Fin 20)]"
  by (simp add: selectAddresses_def MOCK_MEMORY_def take_map upt_conv_Cons applyFence_def
      assertAddresses_def)

lemma prime_two:
  "CacheModel_prime clk CacheModel_new [JNumber (Fin 0), JNumber (Fin 4)]
     = (Inr (replicate 2 \<lparr>level = ''memory'', hit = False, latency = 42\<rparr>), primed clk 2)"
  by (simp add: CacheModel_prime_def CacheModel_access_def CacheModel_new_def CacheLevel_new_def
      Map_has_def CacheLevel_insert_def primed_def upt_conv_Cons numeral_eq_Suc)

lemma prime_six:
  "CacheModel_prime clk CacheModel_new
     [JNumber (Fin 0), JNumber (Fin 4), JNumber (Fin 8), JNumber (Fin 12), JNumber (Fin 16),
      JNumber (Fin 20)]
     = (Inr (replicate 6 \<lparr>level = ''memory'', hit = False, latency = 42\<rparr>), primed clk 6)"
  by (simp add: CacheModel_prime_def CacheModel_access_def CacheModel_new_def CacheLevel_new_def
      Map_has_def CacheLevel_insert_def primed_def upt_conv_Cons numeral_eq_Suc)

lemma access_primed:
  "0 < n \<Longrightarrow> CacheModel_access c (primed clk n) (JNumber (Fin 0))
     = (Inr \<lparr>level = ''L1'', hit = True, latency = 8\<rparr>, primed clk n)"
  by (simp add: CacheModel_access_def primed_def Map_has_def upt_conv_Cons)

lemma probe_primed_two:
  "CacheModel_probe c (primed clk 2) [JNumber (Fin 0), JNumber (Fin 4)]
     = (Inr (replicate 2 \<lparr>level = ''L1'', hit = True, latency = 8\<rparr>), primed clk 2)"
  by (simp add: CacheModel_probe_def CacheModel_access_def primed_def Map_has_def upt_conv_Cons
      numeral_eq_Suc)

lemma probe_primed_six:
  "CacheModel_probe c (primed clk 6)
     [JNumber (Fin 0), JNumber (Fin 4), JNumber (Fin 8), JNumber (Fin 12)]
     = (Inr (replicate 4 \<lparr>level = ''L1'', hit = True, latency = 8\<rparr>), primed clk 6)"
  by (simp add: CacheModel_probe_def CacheModel_access_def primed_def Map_has_def upt_conv_Cons
      numeral_eq_Suc)

lemma train_branchTrain:
  "predict_all BranchPredictor_new [JBool True, JBool True, JBool True, JBool True]
     = ([True, True, True, True],
        \<lparr>history = [True, True, True, True], threshold = 2, counter = 3\<rparr>)"
  by (simp add: BranchPredictor_new_def BranchPredictor_predict_def BranchPredictor_update_def)

lemma trigger_branchTrain:
  "BranchPredictor_predict \<lparr>history = [True, True, True, True], threshold = 2, counter = 3\<rparr>
       (JBool False)
     = (True, \<lparr>history = [True, True, True, True, False], threshold = 2, counter = 2\<rparr>)"
  by (simp add: BranchPredictor_predict_def BranchPredictor_update_def)

lemma pipeline_sequence_ok:
  "\<exists>pv. Pipeline_simulate Pipeline_new (JArray (buildSpeculativeSequence t)) (JBool m) = Inr pv"
proof -
  have "list_all instruction_ok (buildSpeculativeSequence t)"
    by (simp add: buildSpeculativeSequence_def instruction_ok_def)
  then have "first_bad_instruction 0 (buildSpeculativeSequence t) = None"
    by (rule first_bad_instruction_None)
  then show ?thesis by (simp add: Pipeline_simulate_def)
qed

text \<open>The second half of a baseline run after \<open>n\<close> probe hits in the first level (the
  probe reads at most four addresses), with
  a renderer and a logger that return.\<close>

lemma render_baseline:
  assumes "\<forall>k. \<not> Boolean (lookup ds k)"
      and "\<forall>x. renderPipeline (visualiser sim) x = None"
      and "\<forall>x. renderCache (visualiser sim) x = None"
      and "\<forall>x y. renderTimings (visualiser sim) x y = None"
      and "\<forall>s. call_info (logger sim) s = None"
      and "0 < n" and "n \<le> 4"
  shows "measure_and_render env sim c pattern ds pr tr mis pv
            \<lparr>level = ''L1'', hit = True, latency = 8\<rparr>
            (replicate n \<lparr>level = ''L1'', hit = True, latency = 8\<rparr>)
     = Inr \<lparr>summary = (if mis then ''Speculative path observed'' else ''No speculation observed''),
            primeResults = pr, trainingResults = tr, mispredict = mis,
            speculativeAccess = \<lparr>level = ''L1'', hit = True, latency = 8\<rparr>,
            probeResults = replicate n \<lparr>level = ''L1'', hit = True, latency = 8\<rparr>,
            measurements = [(''prime'', JNumber (Fin 60)), (''speculate'', JNumber (Fin 20)),
                            (''probe'', JNumber (Fin 20))],
            detection = None\<rparr>"
proof -
  have sm: "k + 8 * n < 2 ^ 53 \<Longrightarrow>
            foldl (\<lambda>sm p. num_add sm (Fin (real (latency p)))) (Fin (real k))
              (replicate n \<lparr>level = ''L1'', hit = True, latency = 8\<rparr>)
              = Fin (real (k + 8 * n))" for k
  proof (induction n arbitrary: k)
    case 0
    then show ?case by simp
  next
    case (Suc n)
    have "real k + 8 \<in> \<int>" by (metis Ints_of_nat of_nat_add of_nat_numeral)
    moreover have "\<bar>real k + 8\<bar> < 2 ^ 53"
    proof -
      have "k + 8 < 2 ^ 53" using Suc.prems by simp
      then have "real (k + 8) < real (2 ^ 53)" by (simp only: of_nat_less_iff)
      then show ?thesis by simp
    qed
    ultimately have "to_double (real k + 8) = Fin (real (k + 8))"
      by (simp add: to_double_int)
    then show ?case using Suc.IH[of "k + 8"] Suc.prems by (simp add: add.assoc)
  qed
  have sum: "foldl (\<lambda>sm p. num_add sm (Fin (real (latency p)))) (Fin 0)
              (replicate n \<lparr>level = ''L1'', hit = True, latency = 8\<rparr>)
              = Fin (real (8 * n))"
    using sm[of 0] assms(7) by simp
  have mean: "real (8 * n) / real n = 8"
    using assms(6) by simp
  show ?thesis
    using assms(1-6)
    by (simp add: measure_and_render_def artificialDelay_def clampTiming_def applyDefences_def
        validateTimings_def js_and_def sum mean to_double_int del: of_nat_mult)
qed

text \<open>A baseline run of \<^verbatim>\<open>branchTrain\<close> on a new simulator.\<close>

lemma run_branchTrain_baseline:
  assumes "\<forall>x. renderPipeline v x = None"
      and "\<forall>x. renderCache v x = None"
      and "\<forall>x y. renderTimings v x y = None"
      and "\<forall>s. call_info lg s = None"
  shows "fst (run env (AttackSimulator_new v tk lg) branchTrain (JBool False)) =
           Inr \<lparr>summary = ''Speculative path observed'',
                primeResults = replicate 6 \<lparr>level = ''memory'', hit = False, latency = 42\<rparr>,
                trainingResults = [True, True, True, True],
                mispredict = True,
                speculativeAccess = \<lparr>level = ''L1'', hit = True, latency = 8\<rparr>,
                probeResults = replicate 4 \<lparr>level = ''L1'', hit = True, latency = 8\<rparr>,
                measurements = [(''prime'', JNumber (Fin 60)), (''speculate'', JNumber (Fin 20)),
                                (''probe'', JNumber (Fin 20))],
                detection = None\<rparr>"
proof -
  let ?sim = "AttackSimulator_new v tk lg"
  let ?ds = "getState tk (JBool False)"
  have ds: "\<forall>k. \<not> Boolean (lookup ?ds k)" using baseline_falsy by simp
  have vis: "\<forall>x. renderPipeline (visualiser ?sim) x = None"
       "\<forall>x. renderCache (visualiser ?sim) x = None"
       "\<forall>x y. renderTimings (visualiser ?sim) x y = None"
       "\<forall>s. call_info (logger ?sim) s = None"
    using assms by (simp_all add: AttackSimulator_new_def)
  have flds: "cache ?sim = CacheModel_new" "predictor ?sim = BranchPredictor_new"
       "pipeline ?sim = Pipeline_new" "defence ?sim = tk"
    by (simp_all add: AttackSimulator_new_def)
  have pat: "validatePattern branchTrain = None"
       "elements (get_prop branchTrain ''training'') = [JBool True, JBool True, JBool True, JBool True]"
       "get_prop branchTrain ''trigger'' = JBool False"
    by (simp_all add: validatePattern_def branchTrain_def)
  obtain pv where pv:
    "Pipeline_simulate Pipeline_new (JArray (buildSpeculativeSequence (JBool False))) (JBool True) = Inr pv"
    using pipeline_sequence_ok by blast
  have "run_scenario env ?sim branchTrain ?ds =
      (measure_and_render env ?sim (primed (Date_now_prime env) 6) branchTrain ?ds
         (replicate 6 \<lparr>level = ''memory'', hit = False, latency = 42\<rparr>) [True, True, True, True] True
         pv \<lparr>level = ''L1'', hit = True, latency = 8\<rparr>
         (replicate 4 \<lparr>level = ''L1'', hit = True, latency = 8\<rparr>),
       ?sim\<lparr>cache := primed (Date_now_prime env) 6,
             predictor := \<lparr>history = [True, True, True, True, False], threshold = 2, counter = 2\<rparr>\<rparr>)"
    using ds
    by (simp add: run_scenario_def flds pat select_six prime_six train_branchTrain trigger_branchTrain
        js_and_def pv access_primed probe_primed_six Let_def
        del: predict_all.simps)
  then show ?thesis
    using render_baseline[OF ds vis, of 4, simplified]
    by (simp add: run_def pat flds)
qed

text \<open>A baseline run of the pattern with the empty name.\<close>

lemma run_unnamed_baseline:
  "fst (run test_env test_simulator unnamed_pattern (JBool False)) =
     Inr \<lparr>summary = ''No speculation observed'',
          primeResults = replicate 2 \<lparr>level = ''memory'', hit = False, latency = 42\<rparr>,
          trainingResults = [],
          mispredict = False,
          speculativeAccess = \<lparr>level = ''L1'', hit = True, latency = 8\<rparr>,
          probeResults = replicate 2 \<lparr>level = ''L1'', hit = True, latency = 8\<rparr>,
          measurements = [(''prime'', JNumber (Fin 60)), (''speculate'', JNumber (Fin 20)),
                          (''probe'', JNumber (Fin 20))],
          detection = None\<rparr>"
proof -
  let ?sim = "test_simulator"
  let ?ds = "getState DefenceToolkit_new (JBool False)"
  have ds: "\<forall>k. \<not> Boolean (lookup ?ds k)" using baseline_falsy by simp
  have vis: "\<forall>x. renderPipeline (visualiser ?sim) x = None"
       "\<forall>x. renderCache (visualiser ?sim) x = None"
       "\<forall>x y. renderTimings (visualiser ?sim) x y = None"
       "\<forall>s. call_info (logger ?sim) s = None"
    by (simp_all add: test_simulator_def AttackSimulator_new_def visualiserStub_def console_def
        call_info_def)
  have flds: "cache ?sim = CacheModel_new" "predictor ?sim = BranchPredictor_new"
       "pipeline ?sim = Pipeline_new" "defence ?sim = DefenceToolkit_new"
    by (simp_all add: test_simulator_def AttackSimulator_new_def)
  have pat: "validatePattern unnamed_pattern = None"
       "elements (get_prop unnamed_pattern ''training'') = []"
       "get_prop unnamed_pattern ''trigger'' = JBool True"
    by (simp_all add: validatePattern_def unnamed_pattern_def)
  obtain pv where pv:
    "Pipeline_simulate Pipeline_new (JArray (buildSpeculativeSequence (JBool True))) (JBool False) = Inr pv"
    using pipeline_sequence_ok by blast
  have "run_scenario test_env ?sim unnamed_pattern ?ds =
      (measure_and_render test_env ?sim (primed (Date_now_prime test_env) 2) unnamed_pattern ?ds
         (replicate 2 \<lparr>level = ''memory'', hit = False, latency = 42\<rparr>) [] False
         pv \<lparr>level = ''L1'', hit = True, latency = 8\<rparr>
         (replicate 2 \<lparr>level = ''L1'', hit = True, latency = 8\<rparr>),
       ?sim\<lparr>cache := primed (Date_now_prime test_env) 2,
             predictor := \<lparr>history = [True], threshold = 2, counter = 3\<rparr>\<rparr>)"
    using ds
    by (simp add: run_scenario_def flds pat select_two prime_two
        BranchPredictor_new_def BranchPredictor_predict_def BranchPredictor_update_def
        js_and_def pv access_primed probe_primed_two Let_def)
  then show ?thesis
    using render_baseline[OF ds vis, of 2, simplified]
    by (simp add: run_def pat flds)
qed


text \<open>
  Claim C4, as stated, fails in two places. A pattern whose name is the empty string is
  not rejected: the run resolves. And a \<^verbatim>\<open>defended\<close> argument that is \<^verbatim>\<open>undefined\<close>, which
  is not a boolean, takes the default \<^verbatim>\<open>false\<close>: the run resolves too.
\<close>

theorem run_rejects_malformed_counterexample:
  "get_prop unnamed_pattern ''name'' = JString []
   \<and> fst (run test_env test_simulator unnamed_pattern (JBool False)) =
       Inr \<lparr>summary = ''No speculation observed'',
            primeResults = replicate 2 \<lparr>level = ''memory'', hit = False, latency = 42\<rparr>,
            trainingResults = [],
            mispredict = False,
            speculativeAccess = \<lparr>level = ''L1'', hit = True, latency = 8\<rparr>,
            probeResults = replicate 2 \<lparr>level = ''L1'', hit = True, latency = 8\<rparr>,
            measurements = [(''prime'', JNumber (Fin 60)), (''speculate'', JNumber (Fin 20)),
                            (''probe'', JNumber (Fin 20))],
            detection = None\<rparr>
   \<and> typeof JUndefined \<noteq> ''boolean''
   \<and> fst (run test_env test_simulator branchTrain JUndefined) =
       Inr \<lparr>summary = ''Speculative path observed'',
            primeResults = replicate 6 \<lparr>level = ''memory'', hit = False, latency = 42\<rparr>,
            trainingResults = [True, True, True, True],
            mispredict = True,
            speculativeAccess = \<lparr>level = ''L1'', hit = True, latency = 8\<rparr>,
            probeResults = replicate 4 \<lparr>level = ''L1'', hit = True, latency = 8\<rparr>,
            measurements = [(''prime'', JNumber (Fin 60)), (''speculate'', JNumber (Fin 20)),
                            (''probe'', JNumber (Fin 20))],
            detection = None\<rparr>"
proof -
  have dflt: "run test_env test_simulator branchTrain JUndefined
                = run test_env test_simulator branchTrain (JBool False)"
    by (simp add: run_def)
  have stub: "\<forall>x. renderPipeline visualiserStub x = None" "\<forall>x. renderCache visualiserStub x = None"
       "\<forall>x y. renderTimings visualiserStub x y = None" "\<forall>s. call_info console s = None"
    by (simp_all add: visualiserStub_def console_def call_info_def)
  have a: "get_prop unnamed_pattern ''name'' = JString []"
    by (simp add: unnamed_pattern_def)
  note b = run_unnamed_baseline
  note c = run_branchTrain_baseline [OF stub, of test_env DefenceToolkit_new,
      folded test_simulator_def, folded dflt]
  from a b c show ?thesis by simp
qed

text \<open>
  Claim C4, amended. \<^verbatim>\<open>AttackSimulator.run(pattern, defended)\<close> yields a rejected promise,
  with the simulator (cache, predictor, toolkit) exactly as it was, whenever the pattern is
  falsy or its name is not a string (an empty name is accepted), its training is not an
  array of booleans, its trigger is not a boolean, or \<^verbatim>\<open>defended\<close> is neither a boolean
  nor \<^verbatim>\<open>undefined\<close> (which selects the default \<^verbatim>\<open>false\<close>).
\<close>

theorem run_rejects_before_mutation:
  assumes "\<not> Boolean pattern
           \<or> typeof (get_prop pattern ''name'') \<noteq> ''string''
           \<or> \<not> isArray (get_prop pattern ''training'')
           \<or> list_ex (\<lambda>v. typeof v \<noteq> ''boolean'') (elements (get_prop pattern ''training''))
           \<or> typeof (get_prop pattern ''trigger'') \<noteq> ''boolean''
           \<or> (defended \<noteq> JUndefined \<and> typeof defended \<noteq> ''boolean'')"
  shows "\<exists>e. run env sim pattern defended = (Inl e, sim)"
proof (cases "validatePattern pattern")
  case None
  then have "defended \<noteq> JUndefined \<and> typeof defended \<noteq> ''boolean''"
    using assms by (auto simp: validatePattern_def split: if_splits)
  then show ?thesis using None by (simp add: run_def)
next
  case (Some e)
  then show ?thesis by (simp add: run_def)
qed

theorem run_rejects_before_mutation_witness:
  "\<not> isArray (get_prop oops_pattern ''training'')
   \<and> run test_env test_simulator oops_pattern (JBool False) = (Inl PatternTraining, test_simulator)"
proof -
  have h: "\<not> Boolean oops_pattern
           \<or> typeof (get_prop oops_pattern ''name'') \<noteq> ''string''
           \<or> \<not> isArray (get_prop oops_pattern ''training'')
           \<or> list_ex (\<lambda>v. typeof v \<noteq> ''boolean'') (elements (get_prop oops_pattern ''training''))
           \<or> typeof (get_prop oops_pattern ''trigger'') \<noteq> ''boolean''
           \<or> (JBool False \<noteq> JUndefined \<and> typeof (JBool False) \<noteq> ''boolean'')"
    by (simp add: oops_pattern_def)
  have v: "validatePattern oops_pattern = Some PatternTraining"
    by (simp add: validatePattern_def oops_pattern_def)
  show ?thesis
    using run_rejects_before_mutation [OF h, of test_env test_simulator] v
    by (auto simp: run_def oops_pattern_def)
qed

text \<open>
  Claim C10. On a new simulator, with any toolkit, any values of \<^verbatim>\<open>Math.random()\<close> and any
  clock, and with a renderer and a logger whose calls return, the baseline run of
  \<^verbatim>\<open>branchTrain\<close> resolves, and its result has \<^verbatim>\<open>mispredict\<close> true: the four training
  outcomes are all predicted taken and leave the counter at 3, so the trigger is predicted
  taken while it is not.
\<close>

theorem branchTrain_baseline_mispredicts:
  assumes "\<forall>x. renderPipeline v x = None"
      and "\<forall>x. renderCache v x = None"
      and "\<forall>x y. renderTimings v x y = None"
      and "\<forall>s. call_info lg s = None"
  shows "\<exists>r. fst (run env (AttackSimulator_new v tk lg) branchTrain (JBool False)) = Inr r
            \<and> mispredict r
            \<and> trainingResults r = [True, True, True, True]
            \<and> summary r = ''Speculative path observed''"
  using run_branchTrain_baseline [OF assms, of env tk] by simp

theorem branchTrain_baseline_mispredicts_witness:
  "(\<forall>x. renderPipeline visualiserStub x = None)
   \<and> (\<forall>x. renderCache visualiserStub x = None)
   \<and> (\<forall>x y. renderTimings visualiserStub x y = None)
   \<and> (\<forall>s. call_info console s = None)
   \<and> (\<exists>r. fst (run test_env (AttackSimulator_new visualiserStub DefenceToolkit_new console)
                 branchTrain (JBool False)) = Inr r
          \<and> mispredict r)"
proof -
  have h: "\<forall>x. renderPipeline visualiserStub x = None" "\<forall>x. renderCache visualiserStub x = None"
       "\<forall>x y. renderTimings visualiserStub x y = None" "\<forall>s. call_info console s = None"
    by (simp_all add: visualiserStub_def console_def call_info_def)
  show ?thesis
    using h branchTrain_baseline_mispredicts [OF h, of test_env DefenceToolkit_new]
    by auto
qed

end
